theory Spec2Isabelle
  imports Complex_Main "HOL-Library.Log_Nat"
begin

section \<open>pandapowerFMU: the adapter class \<open>PandapowerFMUClass\<close>\<close>

text \<open>
  The development follows \<open>pandapowerFMU/PandapowerFMUClass.py\<close>. A Python float or
  numpy \<open>float64\<close> is the rational number it denotes, and arithmetic on floats rounds as
  IEEE doubles do. Python exceptions are values of type \<open>error\<close>; a function that can
  raise returns \<open>error + 'a\<close> with \<open>Inl\<close> for the exception.
\<close>

subsection \<open>Exceptions\<close>

datatype error =
    ZeroDivisionError
  | RuntimeError
  | IndexError
  | KeyError
  | ValueError
  | InvalidIndexError
  | AttributeError
  | FileNotFoundError
  | EmptyDataError
  | ParserError
  | UnpicklingError
  | LoadflowNotConverged

subsection \<open>Values and strings\<close>

text \<open>A cell of a pandas table: a float, an integer, a boolean, a string or NaN.\<close>

datatype val = VReal rat | VInt int | VBool bool | VStr string | VNaN

definition startswith :: "string \<Rightarrow> string \<Rightarrow> bool" where
  "startswith s p = (take (length p) s = p)"

definition endswith :: "string \<Rightarrow> string \<Rightarrow> bool" where
  "endswith s p = (length p \<le> length s \<and> drop (length s - length p) s = p)"

text \<open>
  \<open>s.split(sep)\<close> for a non-empty separator: the text is cut at every occurrence of the
  separator, found from left to right without overlap. There is always at least one token.
\<close>

function split_from :: "string \<Rightarrow> string \<Rightarrow> string \<Rightarrow> string list" where
  "split_from sep tok [] = [tok]"
| "split_from sep tok (c # cs) =
     (if sep \<noteq> [] \<and> take (length sep) (c # cs) = sep
      then tok # split_from sep [] (drop (length sep) (c # cs))
      else split_from sep (tok @ [c]) cs)"
  by pat_completeness auto
termination
  by (relation "measure (\<lambda>(sep, tok, s). length s)") (auto simp: neq_Nil_conv)

definition py_split :: "string \<Rightarrow> string \<Rightarrow> string list" where
  "py_split s sep = split_from sep [] s"

text \<open>Whether the separator occurs somewhere in the text.\<close>

fun occurs :: "string \<Rightarrow> string \<Rightarrow> bool" where
  "occurs sep [] = (sep = [])"
| "occurs sep (c # cs) = (take (length sep) (c # cs) = sep \<or> occurs sep cs)"

subsection \<open>Double precision arithmetic\<close>

text \<open>
  \<open>double x\<close> is the double nearest to \<open>x\<close>: \<open>x\<close> rounded to a significand of 53 bits, a
  tie going to the even significand. The exponent is not bounded, so overflow, subnormal
  numbers, infinities, NaN and the sign of zero are outside the model. \<open>ilog2 x\<close> is the
  exponent of a positive \<open>x\<close>, the integer \<open>e\<close> with \<open>2 ^ e \<le> x < 2 ^ (e + 1)\<close>.
\<close>

definition ilog2 :: "rat \<Rightarrow> int" where
  "ilog2 x =
     (let (p, q) = quotient_of x; e = bitlen p - bitlen q
      in if 2 powi e \<le> x then e else e - 1)"

definition round_even :: "rat \<Rightarrow> int" where
  "round_even q =
     (let f = \<lfloor>q\<rfloor>; r = q - of_int f
      in if r < 1 / 2 then f else if 1 / 2 < r then f + 1 else if even f then f else f + 1)"

definition double :: "rat \<Rightarrow> rat" where
  "double x =
     (if x = 0 then 0
      else let u = 2 powi (ilog2 \<bar>x\<bar> - 52) in of_int (round_even (x / u)) * u)"

text \<open>The four operations on doubles: the exact result, rounded.\<close>

definition fadd :: "rat \<Rightarrow> rat \<Rightarrow> rat" where
  "fadd a b = double (a + b)"

definition fsub :: "rat \<Rightarrow> rat \<Rightarrow> rat" where
  "fsub a b = double (a - b)"

definition fmul :: "rat \<Rightarrow> rat \<Rightarrow> rat" where
  "fmul a b = double (a * b)"

definition fdiv :: "rat \<Rightarrow> rat \<Rightarrow> rat" where
  "fdiv a b = double (a / b)"

text \<open>
  C's \<open>fmod\<close> is exact: \<open>x\<close> minus \<open>y\<close> times the quotient truncated towards zero.
  Python's \<open>vx % wx\<close> on floats (\<open>float_rem\<close> of CPython) takes \<open>fmod\<close> and, when the remainder
  is not zero and its sign is not that of \<open>wx\<close>, adds \<open>wx\<close> to it. The caller excludes
  \<open>wx = 0\<close>, where Python raises.
\<close>

definition fmod :: "rat \<Rightarrow> rat \<Rightarrow> rat" where
  "fmod x y = x - y * of_int (if 0 \<le> x / y then \<lfloor>x / y\<rfloor> else \<lceil>x / y\<rceil>)"

definition float_rem :: "rat \<Rightarrow> rat \<Rightarrow> rat" where
  "float_rem vx wx =
     (let m = fmod vx wx
      in if m \<noteq> 0 then (if (wx < 0) \<noteq> (m < 0) then fadd m wx else m) else 0)"

subsection \<open>Step scheduling in \<open>doStep\<close>\<close>

text \<open>
  \<open>numpy.arange(start, stop, step)\<close> on floats: the length is the ceiling of
  \<open>(stop - start) / step\<close> computed in doubles, and there is no element when that is not
  positive. The first element is \<open>start\<close>, the second \<open>start + step\<close>, and the element \<open>i\<close> from
  the third on is \<open>start + i * delta\<close>, where \<open>delta\<close> is the second element minus the first.
\<close>

definition np_arange :: "rat \<Rightarrow> rat \<Rightarrow> rat \<Rightarrow> rat list" where
  "np_arange start stop step =
     (let len = \<lceil>fdiv (fsub stop start) step\<rceil>; next = fadd start step
      in if len \<le> 0 then []
         else if len = 1 then [start]
         else let delta = fsub next start
              in [start, next] @
                 map (\<lambda>i. fadd start (fmul (of_nat i) delta)) [2..<nat len])"

text \<open>
  Lines 51 to 62 of \<open>doStep\<close>: the list \<open>sim_steps\<close> of times at which a power flow is run.
  \<open>t_start\<close> is the time saved by \<open>init\<close>, \<open>time_step\<close> is \<open>net.time_step\<close> when the network
  has that attribute.
\<close>

definition sim_steps :: "rat \<Rightarrow> rat option \<Rightarrow> rat \<Rightarrow> rat \<Rightarrow> error + rat list" where
  "sim_steps t_start time_step currentCommunicationPoint communicationStepSize =
     (case time_step of
        None \<Rightarrow> Inr [currentCommunicationPoint]
      | Some c \<Rightarrow>
          if c = 0 then Inl ZeroDivisionError
          else Inr ([currentCommunicationPoint] @
                 np_arange
                   (fadd currentCommunicationPoint
                      (fsub c (float_rem (fsub currentCommunicationPoint t_start) c)))
                   (fadd currentCommunicationPoint communicationStepSize)
                   c))"

subsection \<open>Time series and \<open>get_interpolated_row\<close>\<close>

text \<open>
  A pandas series is a list of (time, value) pairs in storage order, with the values of
  its dtype: \<open>float64\<close>, \<open>int64\<close>, \<open>bool\<close>, or \<open>object\<close> with any cells.
\<close>

datatype series =
    FloatSeries "(rat \<times> rat) list"
  | IntSeries "(rat \<times> int) list"
  | BoolSeries "(rat \<times> bool) list"
  | ObjectSeries "(rat \<times> val) list"

fun s_index :: "series \<Rightarrow> rat list" where
  "s_index (FloatSeries xs) = map fst xs"
| "s_index (IntSeries xs) = map fst xs"
| "s_index (BoolSeries xs) = map fst xs"
| "s_index (ObjectSeries xs) = map fst xs"

fun iloc :: "series \<Rightarrow> nat \<Rightarrow> val" where
  "iloc (FloatSeries xs) i = VReal (snd (xs ! i))"
| "iloc (IntSeries xs) i = VInt (snd (xs ! i))"
| "iloc (BoolSeries xs) i = VBool (snd (xs ! i))"
| "iloc (ObjectSeries xs) i = snd (xs ! i)"

text \<open>
  \<open>Index.get_loc(key, method=...)\<close>, after the pandas documentation: the index must be
  unique (\<open>InvalidIndexError\<close> otherwise) and monotonic (\<open>ValueError\<close> otherwise);
  \<open>ffill\<close> gives the position of the largest index value not above the key, \<open>bfill\<close>
  that of the smallest index value not below it, \<open>nearest\<close> that of the closest value
  with ties going to the larger one; \<open>KeyError\<close> when there is no such position.
\<close>

definition get_loc :: "(nat \<Rightarrow> bool) \<Rightarrow> rat list \<Rightarrow> error + nat" where
  "get_loc chosen idx =
     (if \<not> distinct idx then Inl InvalidIndexError
      else if \<not> (sorted idx \<or> sorted (rev idx)) then Inl ValueError
      else (case List.find chosen [0..<length idx] of
              None \<Rightarrow> Inl KeyError
            | Some i \<Rightarrow> Inr i))"

definition get_loc_ffill :: "rat list \<Rightarrow> rat \<Rightarrow> error + nat" where
  "get_loc_ffill idx key =
     get_loc (\<lambda>i. idx ! i \<le> key \<and>
                  (\<forall>j \<in> set [0..<length idx]. idx ! j \<le> key \<longrightarrow> idx ! j \<le> idx ! i)) idx"

definition get_loc_bfill :: "rat list \<Rightarrow> rat \<Rightarrow> error + nat" where
  "get_loc_bfill idx key =
     get_loc (\<lambda>i. key \<le> idx ! i \<and>
                  (\<forall>j \<in> set [0..<length idx]. key \<le> idx ! j \<longrightarrow> idx ! i \<le> idx ! j)) idx"

definition get_loc_nearest :: "rat list \<Rightarrow> rat \<Rightarrow> error + nat" where
  "get_loc_nearest idx key =
     get_loc (\<lambda>i. \<forall>j \<in> set [0..<length idx].
                    \<bar>idx ! i - key\<bar> < \<bar>idx ! j - key\<bar> \<or>
                    (\<bar>idx ! i - key\<bar> = \<bar>idx ! j - key\<bar> \<and> idx ! j \<le> idx ! i)) idx"

text \<open>
  \<open>get_interpolated_row(df, time)\<close>. \<open>df.index[0]\<close> raises \<open>IndexError\<close> on an empty
  series. In the branch for the other dtypes the value found is copied with \<open>.copy()\<close>:
  the numpy scalars of an \<open>int64\<close> or \<open>bool\<close> series have that method, the Python objects
  in the cells of an \<open>object\<close> series (strings, numbers) do not, which is an
  \<open>AttributeError\<close>.
\<close>

definition get_interpolated_row :: "series \<Rightarrow> rat \<Rightarrow> error + val" where
  "get_interpolated_row df time =
     (let idx = s_index df; len = length idx in
      if idx = [] then Inl IndexError
      else if time < idx ! 0 then Inr (iloc df 0)
      else if time > idx ! (len - 1) then Inr (iloc df (len - 1))
      else
        (case df of
           FloatSeries xs \<Rightarrow>
             (case get_loc_ffill idx time of
                Inl e \<Rightarrow> Inl e
              | Inr ix_row1 \<Rightarrow>
                  let time_row1 = idx ! ix_row1 in
                  if time = time_row1 then Inr (VReal (snd (xs ! ix_row1)))
                  else
                    (case get_loc_bfill idx time of
                       Inl e \<Rightarrow> Inl e
                     | Inr ix_row2 \<Rightarrow>
                         let time_row2 = idx ! ix_row2;
                             row1 = snd (xs ! ix_row1);
                             row2 = snd (xs ! ix_row2)
                         in Inr (VReal
                              (fadd row1
                                 (fdiv (fmul (fsub time time_row1) (fsub row2 row1))
                                    (fsub time_row2 time_row1))))))
         | IntSeries xs \<Rightarrow>
             (case get_loc_nearest idx time of
                Inl e \<Rightarrow> Inl e
              | Inr ix_row \<Rightarrow> Inr (VInt (snd (xs ! ix_row))))
         | BoolSeries xs \<Rightarrow>
             (case get_loc_nearest idx time of
                Inl e \<Rightarrow> Inl e
              | Inr ix_row \<Rightarrow> Inr (VBool (snd (xs ! ix_row))))
         | ObjectSeries xs \<Rightarrow>
             (case get_loc_nearest idx time of
                Inl e \<Rightarrow> Inl e
              | Inr ix_row \<Rightarrow> Inl AttributeError)))"

subsection \<open>Tables, the heap and the network\<close>

text \<open>
  A pandas \<open>DataFrame\<close>: the row labels and the columns, each column holding one cell per
  row. Tables are mutable objects, so they live on a heap (a list, the address being the
  position) and the network refers to them by address; \<open>tables\<close> lists the network's keys
  in dictionary order.
\<close>

record table =
  index :: "val list"
  columns :: "(string \<times> val list) list"

type_synonym heap = "table list"

record profile_row =
  p_class :: string
  p_component :: string
  p_parameter :: string
  p_file :: string
  p_column :: int
  p_profile :: "series option"

text \<open>
  The table \<open>net.profiles\<close>: its rows, and the dtype of its column \<open>column\<close>, which holds
  the column numbers either as integers or, like all other columns, as objects.
\<close>

datatype dtype = Int64 | Object

record profiles_table =
  pt_rows :: "profile_row list"
  pt_column_dtype :: dtype

text \<open>
  The attributes of the \<open>pandapowerNet\<close> object that the adapter reads. An optional
  attribute is \<open>None\<close> when \<open>hasattr\<close> is false.
\<close>

record pp_net =
  tables :: "(string \<times> nat) list"
  fmi_input_vars :: "(string \<rightharpoonup> string list) option"
  fmi_output_vars :: "(string \<rightharpoonup> string list) option"
  fmi_parameters :: "(string \<rightharpoonup> string list) option"
  profiles :: "profiles_table option"
  time_step :: "rat option"
  result_file :: "string option"

text \<open>\<open>getattr(net, name)\<close> for a table: \<open>AttributeError\<close> when the network has no such key.\<close>

definition getattr_table :: "heap \<Rightarrow> pp_net \<Rightarrow> string \<Rightarrow> error + nat" where
  "getattr_table h net name =
     (case map_of (tables net) name of
        None \<Rightarrow> Inl AttributeError
      | Some a \<Rightarrow> if a < length h then Inr a else Inl AttributeError)"

text \<open>\<open>df[name]\<close>: \<open>KeyError\<close> when the table has no such column.\<close>

definition getitem_column :: "table \<Rightarrow> string \<Rightarrow> error + val list" where
  "getitem_column t name =
     (case map_of (columns t) name of None \<Rightarrow> Inl KeyError | Some col \<Rightarrow> Inr col)"

text \<open>
  \<open>index[mask]\<close> with a boolean mask selects by position; a mask of another length is an
  \<open>IndexError\<close>.
\<close>

definition getitem_mask :: "val list \<Rightarrow> bool list \<Rightarrow> error + val list" where
  "getitem_mask idx msk =
     (if length msk \<noteq> length idx then Inl IndexError
      else Inr (map fst (filter snd (zip idx msk))))"

text \<open>
  \<open>series[ix] = v\<close> on a column of a table, \<open>ix\<close> being labels of the table's index: every
  row whose label is in \<open>ix\<close> gets the value. The column is a view of the table, so the
  table changes. The labels are looked up in the index, which must be unique for that
  (the caller checks it).
\<close>

definition setitem_labels :: "val list \<Rightarrow> val list \<Rightarrow> val \<Rightarrow> val list \<Rightarrow> val list" where
  "setitem_labels idx ix v col = map (\<lambda>(l, x). if l \<in> set ix then v else x) (zip idx col)"

definition set_column :: "table \<Rightarrow> string \<Rightarrow> val list \<Rightarrow> table" where
  "set_column t name col =
     t\<lparr>columns := map (\<lambda>(n, c). if n = name then (n, col) else (n, c)) (columns t)\<rparr>"

subsection \<open>\<open>_initialize_fmi_inputs\<close>\<close>

text \<open>
  The calls made on the FMI adapter base class: \<open>Define r k names\<close> is the call
  \<open>define\<close>\<open>k\<close>\<open>r\<close>\<open>s(*names)\<close>, for instance \<open>Define Output KReal\<close> is \<open>defineRealOutputs\<close>.
\<close>

datatype kind = KReal | KInteger | KBoolean | KString

datatype role = Input | Output | Parameter

datatype fmi_call = Define role kind "string list"

fun kind_key :: "kind \<Rightarrow> string" where
  "kind_key KReal = ''Real''"
| "kind_key KInteger = ''Integer''"
| "kind_key KBoolean = ''Boolean''"
| "kind_key KString = ''String''"

text \<open>\<open>if key in vars.keys(): call(*vars[key])\<close>\<close>

definition if_declared :: "(string \<rightharpoonup> string list) \<Rightarrow> string \<Rightarrow> role \<Rightarrow> kind \<Rightarrow> fmi_call list" where
  "if_declared vars key r k = (case vars key of None \<Rightarrow> [] | Some names \<Rightarrow> [Define r k names])"

definition initialize_fmi_inputs :: "pp_net \<Rightarrow> fmi_call list" where
  "initialize_fmi_inputs net =
     (case fmi_input_vars net of
        None \<Rightarrow> []
      | Some vars \<Rightarrow>
          if_declared vars ''Real'' Input KReal @
          if_declared vars ''Integer'' Input KInteger @
          if_declared vars ''Boolean'' Input KBoolean @
          if_declared vars ''String'' Input KString) @
     (case fmi_output_vars net of
        None \<Rightarrow> []
      | Some vars \<Rightarrow>
          if_declared vars ''Real'' Output KReal @
          if_declared vars ''Integer'' Output KReal @
          if_declared vars ''Boolean'' Output KReal @
          if_declared vars ''String'' Output KReal) @
     (case fmi_parameters net of
        None \<Rightarrow> []
      | Some vars \<Rightarrow>
          if_declared vars ''Real'' Parameter KReal @
          if_declared vars ''Integer'' Parameter KInteger @
          if_declared vars ''Boolean'' Parameter KBoolean @
          if_declared vars ''String'' Parameter KString)"

subsection \<open>\<open>_load_profiles\<close>\<close>

text \<open>
  A profile file is a comma-separated table of numbers without a header, given here as
  its rows of cells, a cell being written as an integer or as a float.
  \<open>pd.read_csv(file, header=None, index_col=0, usecols=[0, c])[c]\<close>, after the pandas
  documentation: the first column becomes the index and column \<open>c\<close> the values, an \<open>int64\<close>
  series when every cell of the column is written as an integer and a \<open>float64\<close> series
  otherwise. The file must exist and have a row; the first row fixes the number of columns,
  \<open>c\<close> must be one of them, and \<open>c = 0\<close> leaves no column to select. A row longer than the
  first is a parser error; a shorter row, which pandas fills with NaN, is reported in the
  same way, NaN not being a value here.
\<close>

datatype csv_cell = CInt int | CFloat rat

fun cell_value :: "csv_cell \<Rightarrow> rat" where
  "cell_value (CInt i) = of_int i"
| "cell_value (CFloat x) = x"

fun cell_int :: "csv_cell \<Rightarrow> int option" where
  "cell_int (CInt i) = Some i"
| "cell_int (CFloat x) = None"

type_synonym csv = "csv_cell list list"

definition read_csv_column :: "(string \<rightharpoonup> csv) \<Rightarrow> string \<Rightarrow> int \<Rightarrow> error + series" where
  "read_csv_column fs file c =
     (case fs file of
        None \<Rightarrow> Inl FileNotFoundError
      | Some rows \<Rightarrow>
          if rows = [] \<or> hd rows = [] then Inl EmptyDataError
          else if c < 0 \<or> int (length (hd rows)) \<le> c then Inl ValueError
          else if \<exists>r \<in> set rows. length r \<noteq> length (hd rows) then Inl ParserError
          else if c = 0 then Inl KeyError
          else if list_all (\<lambda>r. cell_int (r ! nat c) \<noteq> None) rows
          then Inr (IntSeries (map (\<lambda>r. (cell_value (r ! 0), the (cell_int (r ! nat c)))) rows))
          else Inr (FloatSeries (map (\<lambda>r. (cell_value (r ! 0), cell_value (r ! nat c))) rows)))"

text \<open>
  \<open>DataFrame.iterrows()\<close> builds each row as a series over the table's values. After the
  pandas documentation, depending on the data types the iterator returns a copy and not a
  view, and writing to a copy has no effect on the table: the values of a table whose
  columns all have one dtype are the stored array itself, those of a table with mixed
  dtypes are a new array.
\<close>

definition iterrows_views :: "profiles_table \<Rightarrow> bool" where
  "iterrows_views t = (pt_column_dtype t = Object)"

text \<open>
  The loop over \<open>net.profiles.iterrows()\<close>: every row without a series reads its file, and
  the assignment to \<open>row['profile']\<close> reaches the table when the row is a view. A read that
  raises ends the loop with the rows before it already treated.
\<close>

fun load_rows :: "bool \<Rightarrow> (string \<rightharpoonup> csv) \<Rightarrow> profile_row list \<Rightarrow> profile_row list \<times> error option" where
  "load_rows view fs [] = ([], None)"
| "load_rows view fs (row # rows) =
     (case p_profile row of
        Some s \<Rightarrow> (let (rows', e) = load_rows view fs rows in (row # rows', e))
      | None \<Rightarrow>
          (case read_csv_column fs (p_file row) (p_column row) of
             Inl e \<Rightarrow> (row # rows, Some e)
           | Inr s \<Rightarrow>
               (let (rows', e) = load_rows view fs rows
                in ((if view then row\<lparr>p_profile := Some s\<rparr> else row) # rows', e))))"

definition load_profiles :: "(string \<rightharpoonup> csv) \<Rightarrow> pp_net \<Rightarrow> pp_net \<times> error option" where
  "load_profiles fs net =
     (case profiles net of
        None \<Rightarrow> (net, None)
      | Some t \<Rightarrow>
          (let (rows', e) = load_rows (iterrows_views t) fs (pt_rows t)
           in (net\<lparr>profiles := Some (t\<lparr>pt_rows := rows'\<rparr>)\<rparr>, e)))"

subsection \<open>Resolving a variable name and \<open>_get_and_set_fmi_inputs\<close>\<close>

text \<open>
  Lines 175 to 177: the name is split at the dots and the tokens 0, 1 and 2 are taken;
  indexing a missing token raises \<open>IndexError\<close>.
\<close>

definition parse_key :: "string \<Rightarrow> error + (string \<times> string \<times> string)" where
  "parse_key key =
     (let toks = py_split key ''.'' in
      if length toks < 2 then Inl IndexError
      else if length toks < 3 then Inl IndexError
      else Inr (toks ! 0, toks ! 1, toks ! 2))"

text \<open>
  Lines 178 to 183 (and their copies in \<open>_set_outputs\<close>): the labels \<open>ix\<close> of the rows of
  the table \<open>classname\<close> selected by the name column, which for a table whose name starts
  with \<open>res_\<close> is the name column of the table called \<open>classname.split('res_')[1]\<close>.
\<close>

definition lookup_ix :: "heap \<Rightarrow> pp_net \<Rightarrow> string \<Rightarrow> string \<Rightarrow> error + val list" where
  "lookup_ix h net classname componentname =
     (if startswith classname ''res_'' then
        (case getattr_table h net classname of
           Inl e \<Rightarrow> Inl e
         | Inr a \<Rightarrow>
             (case getattr_table h net (py_split classname ''res_'' ! 1) of
                Inl e \<Rightarrow> Inl e
              | Inr b \<Rightarrow>
                  (case getitem_column (h ! b) ''name'' of
                     Inl e \<Rightarrow> Inl e
                   | Inr names \<Rightarrow>
                       getitem_mask (index (h ! a))
                         (map (\<lambda>n. n = VStr componentname) names))))
      else
        (case getattr_table h net classname of
           Inl e \<Rightarrow> Inl e
         | Inr a \<Rightarrow>
             (case getitem_column (h ! a) ''name'' of
                Inl e \<Rightarrow> Inl e
              | Inr names \<Rightarrow>
                  getitem_mask (index (h ! a))
                    (map (\<lambda>n. n = VStr componentname) names))))"

definition resolve :: "heap \<Rightarrow> pp_net \<Rightarrow> string \<Rightarrow> error + (string \<times> val list \<times> string)" where
  "resolve h net key =
     (case parse_key key of
        Inl e \<Rightarrow> Inl e
      | Inr (classname, componentname, parametername) \<Rightarrow>
          (case lookup_ix h net classname componentname of
             Inl e \<Rightarrow> Inl e
           | Inr ix \<Rightarrow> Inr (classname, ix, parametername)))"

text \<open>
  Line 184: \<open>getattr(self.net, classname)[parametername][ix] = val\<close>. On a table with a
  repeated row label the assignment raises \<open>InvalidIndexError\<close>.
\<close>

definition set_input :: "heap \<Rightarrow> pp_net \<Rightarrow> string \<Rightarrow> val \<Rightarrow> error + heap" where
  "set_input h net key v =
     (case resolve h net key of
        Inl e \<Rightarrow> Inl e
      | Inr (classname, ix, parametername) \<Rightarrow>
          (case getattr_table h net classname of
             Inl e \<Rightarrow> Inl e
           | Inr a \<Rightarrow>
               (case getitem_column (h ! a) parametername of
                  Inl e \<Rightarrow> Inl e
                | Inr col \<Rightarrow>
                    if \<not> distinct (index (h ! a)) then Inl InvalidIndexError
                    else Inr (h[a := set_column (h ! a) parametername
                                      (setitem_labels (index (h ! a)) ix v col)]))))"

text \<open>
  The loop of lines 173 to 184 over the input values; an exception leaves the writes made
  before it in place.
\<close>

fun set_inputs :: "heap \<Rightarrow> pp_net \<Rightarrow> (string \<times> val) list \<Rightarrow> heap \<times> error option" where
  "set_inputs h net [] = (h, None)"
| "set_inputs h net ((key, v) # kvs) =
     (case set_input h net key v of
        Inl e \<Rightarrow> (h, Some e)
      | Inr h' \<Rightarrow> set_inputs h' net kvs)"

text \<open>The values returned by the adapter's \<open>get...InputValues()\<close>, one dictionary per kind.\<close>

record fmi_inputs =
  real_inputs :: "(string \<times> rat) list"
  integer_inputs :: "(string \<times> int) list"
  boolean_inputs :: "(string \<times> bool) list"
  string_inputs :: "(string \<times> string) list"

definition get_and_set_fmi_inputs :: "heap \<Rightarrow> pp_net \<Rightarrow> fmi_inputs \<Rightarrow> heap \<times> error option" where
  "get_and_set_fmi_inputs h net inp =
     (case fmi_input_vars net of
        None \<Rightarrow> (h, None)
      | Some vars \<Rightarrow>
          set_inputs h net
            (map (\<lambda>(k, v). (k, VReal v)) (real_inputs inp) @
             map (\<lambda>(k, v). (k, VInt v)) (integer_inputs inp) @
             map (\<lambda>(k, v). (k, VBool v)) (boolean_inputs inp) @
             map (\<lambda>(k, v). (k, VStr v)) (string_inputs inp)))"

subsection \<open>\<open>get_pp_results\<close>\<close>

text \<open>\<open>df.empty\<close>: no rows or no columns.\<close>

definition empty_table :: "table \<Rightarrow> bool" where
  "empty_table t = (index t = [] \<or> columns t = [])"

text \<open>
  The dictionary comprehension of line 298: every non-empty table of the network whose key
  starts with \<open>res_\<close> is copied, the copy being a new object on the heap.
\<close>

fun copy_results :: "heap \<Rightarrow> pp_net \<Rightarrow> (string \<times> nat) list \<Rightarrow> heap \<times> (error + (string \<times> nat) list)" where
  "copy_results h net [] = (h, Inr [])"
| "copy_results h net ((key, a) # kas) =
     (if startswith key ''res_'' then
        (case getattr_table h net key of
           Inl e \<Rightarrow> (h, Inl e)
         | Inr a' \<Rightarrow>
             if empty_table (h ! a') then copy_results h net kas
             else
               (case copy_results (h @ [h ! a']) net kas of
                  (h', Inl e) \<Rightarrow> (h', Inl e)
                | (h', Inr df_dict) \<Rightarrow> (h', Inr ((key, length h) # df_dict))))
      else copy_results h net kas)"

text \<open>
  \<open>df.stack()\<close>: the cells row by row, each under its row label and column name, NaN
  cells left out.
\<close>

definition stack :: "table \<Rightarrow> ((val \<times> string) \<times> val) list" where
  "stack t =
     concat (map (\<lambda>(i, l).
               concat (map (\<lambda>(c, col). if col ! i = VNaN then [] else [((l, c), col ! i)])
                         (columns t)))
             (zip [0..<length (index t)] (index t)))"

text \<open>
  The loop of lines 305 to 314. The index of each copy is replaced by the component names
  read from the table \<open>df_name[4:]\<close> of the network (a label without a name becomes NaN),
  then the copy is stacked. \<open>str\<close> is Python's conversion of a cell to text.
\<close>

fun flatten_tables ::
  "(val \<Rightarrow> string) \<Rightarrow> pp_net \<Rightarrow> (string \<times> nat) list \<Rightarrow> heap \<Rightarrow> string list \<Rightarrow>
     ((val \<times> string) \<times> val) list list \<Rightarrow>
     heap \<times> (error + string list \<times> ((val \<times> string) \<times> val) list list)" where
  "flatten_tables str net [] h keys dfs = (h, Inr (keys, dfs))"
| "flatten_tables str net ((df_name, df) # rest) h keys dfs =
     (case getattr_table h net (drop 4 df_name) of
        Inl e \<Rightarrow> (h, Inl e)
      | Inr d \<Rightarrow>
          (case getitem_column (h ! d) ''name'' of
             Inl e \<Rightarrow> (h, Inl e)
           | Inr names \<Rightarrow>
               (let to_dict = map_of (rev (zip (index (h ! d)) (map str names)));
                    h' = h[df := (h ! df)\<lparr>index :=
                            map (\<lambda>l. case to_dict l of None \<Rightarrow> VNaN | Some s \<Rightarrow> VStr s)
                              (index (h ! df))\<rparr>]
                in flatten_tables str net rest h' (keys @ [drop 4 df_name])
                     (dfs @ [stack (h' ! df)]))))"

text \<open>
  The returned one-row frame: the time and, for every stacked cell, the column
  (table, component, field) with its value.
\<close>

type_synonym result_row = "rat \<times> ((string \<times> val \<times> string) \<times> val) list"

definition get_pp_results :: "(val \<Rightarrow> string) \<Rightarrow> heap \<Rightarrow> pp_net \<Rightarrow> rat \<Rightarrow> heap \<times> (error + result_row)" where
  "get_pp_results str h net time =
     (case copy_results h net (tables net) of
        (h1, Inl e) \<Rightarrow> (h1, Inl e)
      | (h1, Inr df_dict) \<Rightarrow>
          if df_dict = [] then (h1, Inl RuntimeError)
          else
            (case flatten_tables str net df_dict h1 [] [] of
               (h2, Inl e) \<Rightarrow> (h2, Inl e)
             | (h2, Inr (keys, dfs)) \<Rightarrow>
                 (h2, Inr (time,
                    concat (map (\<lambda>(k, df). map (\<lambda>((l, c), v). ((k, l, c), v)) df)
                              (zip keys dfs))))))"

subsection \<open>\<open>init\<close>\<close>

text \<open>
  The adapter object: the saved start time, the network once loaded, the heap of its
  tables, the declarations made on the FMI base class, and the result file with the header
  written to it. What \<open>init\<close> takes from outside is in \<open>env\<close>: the listing of the working
  directory, \<open>pp.from_pickle\<close>, the profile files, the power flow \<open>pp.runpp\<close> and \<open>str\<close>.
\<close>

record fmu =
  t_start :: "rat option"
  net :: "pp_net option"
  store :: heap
  declared :: "fmi_call list"
  result_log :: "(string \<times> (string \<times> val \<times> string) list) option"

record env =
  listdir :: "string list"
  from_pickle :: "string \<Rightarrow> error + pp_net \<times> heap"
  csv_files :: "string \<rightharpoonup> csv"
  runpp :: "heap \<Rightarrow> pp_net \<Rightarrow> error + heap"
  py_str :: "val \<Rightarrow> string"

text \<open>Lines 27 to 29: every file of the listing that ends in \<open>.p\<close> is loaded into \<open>self.net\<close>.\<close>

fun load_pickles :: "(string \<Rightarrow> error + pp_net \<times> heap) \<Rightarrow> string list \<Rightarrow> fmu \<Rightarrow> fmu \<times> error option" where
  "load_pickles unpickle [] st = (st, None)"
| "load_pickles unpickle (file # files) st =
     (if endswith file ''.p'' then
        (case unpickle file of
           Inl e \<Rightarrow> (st, Some e)
         | Inr (n, h) \<Rightarrow> load_pickles unpickle files (st\<lparr>net := Some n, store := h\<rparr>))
      else load_pickles unpickle files st)"

definition init :: "env \<Rightarrow> fmu \<Rightarrow> rat \<Rightarrow> fmu \<times> error option" where
  "init env st currentCommunicationPoint =
     (case load_pickles (from_pickle env) (listdir env)
             (st\<lparr>t_start := Some currentCommunicationPoint\<rparr>) of
        (st1, Some e) \<Rightarrow> (st1, Some e)
      | (st1, None) \<Rightarrow>
          (case net st1 of
             None \<Rightarrow> (st1, Some RuntimeError)
           | Some n \<Rightarrow>
               (let st2 = st1\<lparr>declared := declared st1 @ initialize_fmi_inputs n\<rparr> in
                case load_profiles (csv_files env) n of
                  (n', Some e) \<Rightarrow> (st2\<lparr>net := Some n'\<rparr>, Some e)
                | (n', None) \<Rightarrow>
                    (case runpp env (store st2) n' of
                       Inl e \<Rightarrow> (st2\<lparr>net := Some n'\<rparr>, Some e)
                     | Inr h \<Rightarrow>
                         (case get_pp_results (py_str env) h n' 0 of
                            (h', Inl e) \<Rightarrow> (st2\<lparr>net := Some n', store := h'\<rparr>, Some e)
                          | (h', Inr (t, row)) \<Rightarrow>
                              (case result_file n' of
                                 None \<Rightarrow> (st2\<lparr>net := Some n', store := h'\<rparr>, Some AttributeError)
                               | Some name \<Rightarrow>
                                   (st2\<lparr>net := Some n', store := h',
                                        result_log := Some (name, map fst row)\<rparr>,
                                    None)))))))"

subsection \<open>A small network\<close>

text \<open>
  Three loads, the one named \<open>Load1\<close> at index 2, and their result table as the power flow
  leaves it, with the same index.
\<close>

definition example_load :: table where
  "example_load =
     \<lparr>index = [VInt 0, VInt 1, VInt 2],
      columns = [(''name'', [VStr ''LoadA'', VStr ''LoadB'', VStr ''Load1'']),
                 (''bus'', [VInt 1, VInt 1, VInt 2]),
                 (''p_mw'', [VReal 1, VReal 2, VReal 3])]\<rparr>"

definition example_res_load :: table where
  "example_res_load =
     \<lparr>index = [VInt 0, VInt 1, VInt 2],
      columns = [(''p_mw'', [VReal 1, VReal 2, VReal 3])]\<rparr>"

definition example_heap :: heap where
  "example_heap = [example_load, example_res_load]"

definition example_net :: pp_net where
  "example_net =
     \<lparr>tables = [(''load'', 0), (''res_load'', 1)],
      fmi_input_vars = Some [''Real'' \<mapsto> [''res_load.Load1.p_mw'']],
      fmi_output_vars = Some [''Integer'' \<mapsto> [''load.Load1.bus'']],
      fmi_parameters = None,
      profiles = None,
      time_step = None,
      result_file = Some ''results.csv''\<rparr>"

text \<open>
  A profile file with the times 0 and 10 and two value columns (the rows \<open>0,1,5.5\<close> and
  \<open>10,2,6.5\<close>), two profiles (one to be
  read from the file, one given as a series), a working directory with two network files,
  and an adapter on which \<open>init\<close> has not run.
\<close>

definition example_csv_files :: "string \<rightharpoonup> csv" where
  "example_csv_files =
     [''load1.csv'' \<mapsto> [[CInt 0, CInt 1, CFloat (11 / 2)], [CInt 10, CInt 2, CFloat (13 / 2)]]]"

definition example_profiles :: "profile_row list" where
  "example_profiles =
     [\<lparr>p_class = ''load'', p_component = ''Load1'', p_parameter = ''p_mw'',
       p_file = ''load1.csv'', p_column = 2, p_profile = None\<rparr>,
      \<lparr>p_class = ''load'', p_component = ''LoadA'', p_parameter = ''p_mw'',
       p_file = '''', p_column = 0, p_profile = Some (FloatSeries [(0, 4)])\<rparr>]"

definition example_env :: env where
  "example_env =
     \<lparr>listdir = [''old.p'', ''notes.txt'', ''grid.p''],
      from_pickle = (\<lambda>f. if f = ''old.p'' then Inr (example_net\<lparr>fmi_output_vars := None\<rparr>, [])
                         else if f = ''grid.p'' then Inr (example_net, example_heap)
                         else Inl UnpicklingError),
      csv_files = example_csv_files,
      runpp = (\<lambda>h n. Inr h),
      py_str = (\<lambda>v. case v of VStr s \<Rightarrow> s | _ \<Rightarrow> [])\<rparr>"

definition new_fmu :: fmu where
  "new_fmu = \<lparr>t_start = None, net = None, store = [], declared = [], result_log = None\<rparr>"

section \<open>Properties\<close>

subsection \<open>Step scheduling\<close>

lemma sim_steps_no_cadence: "sim_steps t0 None start stepSize = Inr [start]"
  by (simp add: sim_steps_def)

lemma sim_steps_whole_numbers: "sim_steps 0 (Some 3) 0 10 = Inr [0, 3, 6, 9]"
  by code_simp

text \<open>
  With the cadence 0.1 and the initial time 0, the step of size 0.3 from 0.3 runs the power
  flow at 0.3, 0.30000000000000004, 0.4 and 0.5.
\<close>

lemma sim_steps_from_three_tenths:
  "sim_steps 0 (Some (double (1 / 10))) (double (3 / 10)) (double (3 / 10)) =
     Inr [5404319552844595 / 18014398509481984,
          1351079888211149 / 4503599627370496,
          3602879701896397 / 9007199254740992,
          1 / 2]"
  by code_simp

text \<open>
  Claim C1. The instants after the start are to begin at \<open>start + (c - phase)\<close>, one
  cadence after the start when the start is on the cadence, and to stay strictly below
  \<open>start + stepSize\<close>. That holds for the whole numbers of \<open>sim_steps_whole_numbers\<close> and
  without a cadence, but not for every input: with the cadence 0.1 and the initial time 0,
  the step of size 0.3 from 1.0 finds the phase 0.09999999999999995 where the start is ten
  cadences after the initial time, adds to the start a difference that is rounded away,
  and runs the power flow at 1.0, 1.0, 1.1, 1.2000000000000002 and 1.3000000000000003:
  twice at the start, and last above \<open>start + stepSize\<close>, which is 1.3.
\<close>

theorem sim_steps_tenth_cadence:
  "double (1 / 10) = 3602879701896397 / 36028797018963968
   \<and> float_rem (fsub 1 0) (double (1 / 10)) = 3602879701896395 / 36028797018963968
   \<and> fadd 1 (double (3 / 10)) = 5854679515581645 / 4503599627370496
   \<and> sim_steps 0 (Some (double (1 / 10))) 1 (double (3 / 10)) =
       Inr [1, 1,
            4953959590107546 / 4503599627370496,
            5404319552844596 / 4503599627370496,
            5854679515581646 / 4503599627370496]
   \<and> fadd 1 (double (3 / 10)) < 5854679515581646 / 4503599627370496"
  by code_simp

subsection \<open>Declaration of the FMI variables\<close>

lemma declared_inputs:
  assumes "fmi_input_vars n = Some vars" and "vars (kind_key k) = Some names"
  shows "Define Input k names \<in> set (initialize_fmi_inputs n)"
  using assms by (cases k) (simp_all add: initialize_fmi_inputs_def if_declared_def)

lemma declared_parameters:
  assumes "fmi_parameters n = Some vars" and "vars (kind_key k) = Some names"
  shows "Define Parameter k names \<in> set (initialize_fmi_inputs n)"
  using assms by (cases k) (simp_all add: initialize_fmi_inputs_def if_declared_def)

lemma declared_outputs:
  assumes "fmi_output_vars n = Some vars" and "vars (kind_key k) = Some names"
  shows "Define Output KReal names \<in> set (initialize_fmi_inputs n)"
  using assms by (cases k) (simp_all add: initialize_fmi_inputs_def if_declared_def)

text \<open>
  Claim C2. Every kind and role is to be registered through the call of its own kind.
  The source does so for inputs and parameters (\<open>declared_inputs\<close>,
  \<open>declared_parameters\<close>), but lines 115, 117 and 119 pass the Integer, Boolean and String
  outputs to \<open>defineRealOutputs\<close>: the network whose only declaration is the Integer output
  \<open>load.Load1.bus\<close> makes the single call \<open>defineRealOutputs\<close>, and no call of
  \<open>defineIntegerOutputs\<close>.
\<close>

theorem integer_output_declared_as_real:
  "initialize_fmi_inputs (example_net\<lparr>fmi_input_vars := None\<rparr>) =
     [Define Output KReal [''load.Load1.bus'']]
   \<and> Define Output KInteger [''load.Load1.bus'']
         \<notin> set (initialize_fmi_inputs (example_net\<lparr>fmi_input_vars := None\<rparr>))"
  by (simp add: initialize_fmi_inputs_def if_declared_def example_net_def)

subsection \<open>Interpolation\<close>

lemma find_upt_first:
  assumes "i < n" and "P i" and "\<And>j. j < i \<Longrightarrow> \<not> P j"
  shows "List.find P [0..<n] = Some i"
  using assms by (auto simp: find_Some_iff intro!: exI [of _ i])

lemma strict_nth_mono:
  assumes "sorted_wrt (<) (idx :: rat list)" and "i < length idx" and "j < length idx"
  shows "idx ! i \<le> idx ! j \<longleftrightarrow> i \<le> j"
proof
  assume le: "idx ! i \<le> idx ! j"
  show "i \<le> j"
  proof (rule ccontr)
    assume "\<not> i \<le> j"
    then have "j < i" by simp
    with assms have "idx ! j < idx ! i"
      by (simp add: sorted_wrt_nth_less)
    with le show False by simp
  qed
next
  assume "i \<le> j"
  then consider "i = j" | "i < j" by linarith
  then show "idx ! i \<le> idx ! j"
  proof cases
    case 1 then show ?thesis by simp
  next
    case 2
    with assms have "idx ! i < idx ! j" by (simp add: sorted_wrt_nth_less)
    then show ?thesis by simp
  qed
qed

lemma get_loc_strict:
  assumes "sorted_wrt (<) (idx :: rat list)"
  shows "get_loc chosen idx =
           (case List.find chosen [0..<length idx] of None \<Rightarrow> Inl KeyError | Some i \<Rightarrow> Inr i)"
  using assms by (simp add: get_loc_def strict_sorted_iff)

lemma get_loc_ffill_exact:
  assumes "sorted_wrt (<) (idx :: rat list)" and "i < length idx" and "t = idx ! i"
  shows "get_loc_ffill idx t = Inr i"
proof -
  let ?P = "\<lambda>i. idx ! i \<le> t \<and> (\<forall>j \<in> set [0..<length idx]. idx ! j \<le> t \<longrightarrow> idx ! j \<le> idx ! i)"
  have "?P i" using assms by simp
  moreover have "\<not> ?P j" if "j < i" for j
  proof -
    from that assms have "idx ! j < idx ! i" by (simp add: sorted_wrt_nth_less)
    with assms show ?thesis by auto
  qed
  ultimately have "List.find ?P [0..<length idx] = Some i"
    using assms(2) by (intro find_upt_first) 
  then show ?thesis
    by (simp add: get_loc_ffill_def get_loc_strict [OF assms(1)])
qed

lemma get_loc_ffill_between:
  assumes "sorted_wrt (<) (idx :: rat list)" and "Suc i < length idx"
    and "idx ! i < t" and "t < idx ! Suc i"
  shows "get_loc_ffill idx t = Inr i"
proof -
  let ?P = "\<lambda>i. idx ! i \<le> t \<and> (\<forall>j \<in> set [0..<length idx]. idx ! j \<le> t \<longrightarrow> idx ! j \<le> idx ! i)"
  have "idx ! j \<le> idx ! i" if "j < length idx" and "idx ! j \<le> t" for j
  proof -
    from that assms have "idx ! j \<le> idx ! Suc i" by simp
    then have "j \<le> Suc i" using strict_nth_mono [OF assms(1)] that assms(2) by simp
    moreover have "j \<noteq> Suc i" using that assms(4) by auto
    ultimately have "j \<le> i" by simp
    then show ?thesis using strict_nth_mono [OF assms(1)] that assms(2) by simp
  qed
  then have "?P i" using assms by simp
  moreover have "\<not> ?P j" if "j < i" for j
  proof -
    from that assms have "idx ! j < idx ! i" by (simp add: sorted_wrt_nth_less)
    moreover have "i \<in> set [0..<length idx]" using assms(2) by simp
    ultimately show ?thesis using assms(3) by (auto intro!: bexI [of _ i])
  qed
  ultimately have "List.find ?P [0..<length idx] = Some i"
    using assms(2) by (intro find_upt_first) simp_all
  then show ?thesis
    by (simp add: get_loc_ffill_def get_loc_strict [OF assms(1)])
qed

lemma get_loc_bfill_between:
  assumes "sorted_wrt (<) (idx :: rat list)" and "Suc i < length idx"
    and "idx ! i < t" and "t < idx ! Suc i"
  shows "get_loc_bfill idx t = Inr (Suc i)"
proof -
  let ?P = "\<lambda>i. t \<le> idx ! i \<and> (\<forall>j \<in> set [0..<length idx]. t \<le> idx ! j \<longrightarrow> idx ! i \<le> idx ! j)"
  have "idx ! Suc i \<le> idx ! j" if "j < length idx" and "t \<le> idx ! j" for j
  proof -
    from that assms have "idx ! i < idx ! j" by simp
    then have "\<not> j \<le> i" using strict_nth_mono [OF assms(1), of j i] that assms(2) by auto
    then have "Suc i \<le> j" by simp
    then show ?thesis using strict_nth_mono [OF assms(1)] that assms(2) by simp
  qed
  then have "?P (Suc i)" using assms by simp
  moreover have "\<not> ?P j" if "j < Suc i" for j
  proof -
    from that have "j \<le> i" by simp
    then have "idx ! j \<le> idx ! i" using strict_nth_mono [OF assms(1)] assms(2) by simp
    with assms show ?thesis by auto
  qed
  ultimately have "List.find ?P [0..<length idx] = Some (Suc i)"
    using assms(2) by (intro find_upt_first) simp_all
  then show ?thesis
    by (simp add: get_loc_bfill_def get_loc_strict [OF assms(1)])
qed


lemma strict_hd_le_nth:
  assumes "sorted_wrt (<) (idx :: rat list)" and "i < length idx"
  shows "idx ! 0 \<le> idx ! i" and "idx ! i \<le> idx ! (length idx - 1)"
proof -
  from assms(2) have "0 < length idx" by (cases idx) simp_all
  with strict_nth_mono [OF assms(1), of 0 i] assms(2) show "idx ! 0 \<le> idx ! i"
    by simp
  from assms(2) have "length idx - 1 < length idx" and "i \<le> length idx - 1" by simp_all
  with strict_nth_mono [OF assms(1), of i "length idx - 1"] assms(2)
  show "idx ! i \<le> idx ! (length idx - 1)"
    by simp
qed

text \<open>
  Claim C4, as the source has it. For a non-empty float series whose times increase
  strictly, \<open>get_interpolated_row\<close> returns the first value for a time before the first
  index, the last value for a time after the last index, the stored value for a time that
  is an index, and between two neighbouring samples the linear interpolation
  \<open>lowerVal + (t - lowerTime) * (upperVal - lowerVal) / (upperTime - lowerTime)\<close>, computed
  in doubles.
\<close>

theorem get_interpolated_row_float:
  assumes "xs \<noteq> []" and "sorted_wrt (<) (map fst xs)"
  shows "(t < fst (hd xs) \<longrightarrow>
            get_interpolated_row (FloatSeries xs) t = Inr (VReal (snd (hd xs))))
       \<and> (fst (last xs) < t \<longrightarrow>
            get_interpolated_row (FloatSeries xs) t = Inr (VReal (snd (last xs))))
       \<and> (\<forall>i<length xs. t = fst (xs ! i) \<longrightarrow>
            get_interpolated_row (FloatSeries xs) t = Inr (VReal (snd (xs ! i))))
       \<and> (\<forall>i. Suc i < length xs \<and> fst (xs ! i) < t \<and> t < fst (xs ! Suc i) \<longrightarrow>
            get_interpolated_row (FloatSeries xs) t =
              Inr (VReal (fadd (snd (xs ! i))
                            (fdiv (fmul (fsub t (fst (xs ! i)))
                                     (fsub (snd (xs ! Suc i)) (snd (xs ! i))))
                               (fsub (fst (xs ! Suc i)) (fst (xs ! i)))))))"
proof -
  let ?idx = "map fst xs"
  have len: "0 < length xs" using assms(1) by simp
  have first: "?idx ! 0 = fst (hd xs)"
    using assms(1) by (simp add: hd_conv_nth)
  have final: "?idx ! (length xs - 1) = fst (last xs)"
    using assms(1) by (simp add: last_conv_nth)
  have bounds: "fst (hd xs) \<le> fst (xs ! i) \<and> fst (xs ! i) \<le> fst (last xs)"
    if "i < length xs" for i
    using strict_hd_le_nth [OF assms(2), of i] that first final by simp
  have before: "get_interpolated_row (FloatSeries xs) t = Inr (VReal (snd (hd xs)))"
    if "t < fst (hd xs)"
    using that assms(1) by (simp add: get_interpolated_row_def hd_conv_nth)
  have after: "get_interpolated_row (FloatSeries xs) t = Inr (VReal (snd (last xs)))"
    if "fst (last xs) < t"
  proof -
    from bounds [OF len] that have "\<not> t < fst (hd xs)" by simp
    with that assms(1) show ?thesis
      by (simp add: get_interpolated_row_def hd_conv_nth last_conv_nth)
  qed
  have exact: "get_interpolated_row (FloatSeries xs) t = Inr (VReal (snd (xs ! i)))"
    if "i < length xs" and "t = fst (xs ! i)" for i
  proof -
    from bounds [OF that(1)] that(2)
    have "\<not> t < fst (hd xs)" and "\<not> fst (last xs) < t" by simp_all
    moreover have "get_loc_ffill ?idx t = Inr i"
      using that by (intro get_loc_ffill_exact [OF assms(2)]) simp_all
    ultimately show ?thesis
      using assms(1) that
      by (simp add: get_interpolated_row_def hd_conv_nth last_conv_nth)
  qed
  have between: "get_interpolated_row (FloatSeries xs) t =
      Inr (VReal (fadd (snd (xs ! i))
                    (fdiv (fmul (fsub t (fst (xs ! i)))
                             (fsub (snd (xs ! Suc i)) (snd (xs ! i))))
                       (fsub (fst (xs ! Suc i)) (fst (xs ! i))))))"
    if "Suc i < length xs" and "fst (xs ! i) < t" and "t < fst (xs ! Suc i)" for i
  proof -
    from that(1) have i: "i < length xs" by simp
    from bounds [OF i] bounds [OF that(1)] that
    have "\<not> t < fst (hd xs)" and "\<not> fst (last xs) < t" by simp_all
    moreover have "get_loc_ffill ?idx t = Inr i"
      using that by (intro get_loc_ffill_between [OF assms(2)]) simp_all
    moreover have "get_loc_bfill ?idx t = Inr (Suc i)"
      using that by (intro get_loc_bfill_between [OF assms(2)]) simp_all
    ultimately show ?thesis
      using assms(1) that
      by (simp add: get_interpolated_row_def hd_conv_nth last_conv_nth Let_def)
  qed
  show ?thesis
    using before after exact between by blast
qed

theorem get_interpolated_row_float_witness:
  "[(0, 1), (10, 3 :: rat)] \<noteq> [] \<and> sorted_wrt (<) (map fst [(0 :: rat, 1 :: rat), (10, 3)])
   \<and> get_interpolated_row (FloatSeries [(0, 1), (10, 3)]) (- 1) = Inr (VReal 1)
   \<and> get_interpolated_row (FloatSeries [(0, 1), (10, 3)]) 11 = Inr (VReal 3)
   \<and> get_interpolated_row (FloatSeries [(0, 1), (10, 3)]) 10 = Inr (VReal 3)
   \<and> get_interpolated_row (FloatSeries [(0, 1), (10, 3)]) 5 = Inr (VReal 2)"
proof -
  have ne: "[(0 :: rat, 1 :: rat), (10, 3)] \<noteq> []" by simp
  have srt: "sorted_wrt (<) (map fst [(0 :: rat, 1 :: rat), (10, 3)])" by simp
  from get_interpolated_row_float [OF ne srt, of "- 1"]
  have "get_interpolated_row (FloatSeries [(0, 1), (10, 3)]) (- 1) = Inr (VReal 1)"
    by simp
  moreover from get_interpolated_row_float [OF ne srt, of 11]
  have "get_interpolated_row (FloatSeries [(0, 1), (10, 3)]) 11 = Inr (VReal 3)"
    by simp
  moreover from get_interpolated_row_float [OF ne srt, of 10]
  have "get_interpolated_row (FloatSeries [(0, 1), (10, 3)]) 10 = Inr (VReal 3)"
    by (simp add: All_less_Suc2)
  moreover have "get_interpolated_row (FloatSeries [(0, 1), (10, 3)]) 5 = Inr (VReal 2)"
  proof -
    have "fadd 1 (fdiv (fmul (fsub 5 0) (fsub 3 1)) (fsub 10 0)) = 2"
      by code_simp
    with get_interpolated_row_float [OF ne srt, of 5] show ?thesis
      by simp
  qed
  ultimately show ?thesis
    using ne srt by blast
qed

text \<open>
  Claim C4 as stated fails: it speaks of every non-empty float series. On the index
  0, 10, 5 the time 3 lies between the samples at 0 and at 5, and the source raises
  \<open>ValueError\<close> instead of interpolating; on the index 0, 5, 5 it raises
  \<open>InvalidIndexError\<close>.
\<close>

theorem get_interpolated_row_unordered:
  "get_interpolated_row (FloatSeries [(0, 1), (10, 3), (5, 2)]) 3 = Inl ValueError
   \<and> get_interpolated_row (FloatSeries [(0, 1), (5, 2), (5, 3)]) 3 = Inl InvalidIndexError"
  by code_simp

subsection \<open>Resolving variable names\<close>

lemma split_from_token:
  "CHR ''.'' \<notin> set a \<Longrightarrow> split_from ''.'' tok a = [tok @ a]"
  by (induction a arbitrary: tok) auto

lemma split_from_dot:
  "CHR ''.'' \<notin> set a \<Longrightarrow>
     split_from ''.'' tok (a @ CHR ''.'' # rest) = (tok @ a) # split_from ''.'' [] rest"
  by (induction a arbitrary: tok) auto

lemma py_split_one:
  "CHR ''.'' \<notin> set a \<Longrightarrow> py_split a ''.'' = [a]"
  by (simp add: py_split_def split_from_token)

lemma py_split_two:
  "CHR ''.'' \<notin> set a \<Longrightarrow> CHR ''.'' \<notin> set b \<Longrightarrow> py_split (a @ CHR ''.'' # b) ''.'' = [a, b]"
  by (simp add: py_split_def split_from_dot split_from_token)

lemma py_split_three_more:
  "CHR ''.'' \<notin> set a \<Longrightarrow> CHR ''.'' \<notin> set b \<Longrightarrow> CHR ''.'' \<notin> set c \<Longrightarrow>
     py_split (a @ CHR ''.'' # b @ CHR ''.'' # c @ CHR ''.'' # rest) ''.'' =
       a # b # c # py_split rest ''.''"
  by (simp add: py_split_def split_from_dot)

lemma py_split_three:
  "CHR ''.'' \<notin> set a \<Longrightarrow> CHR ''.'' \<notin> set b \<Longrightarrow> CHR ''.'' \<notin> set c \<Longrightarrow>
     py_split (a @ CHR ''.'' # b @ CHR ''.'' # c) ''.'' = [a, b, c]"
  by (simp add: py_split_def split_from_dot split_from_token)

lemma parse_key_three:
  "CHR ''.'' \<notin> set a \<Longrightarrow> CHR ''.'' \<notin> set b \<Longrightarrow> CHR ''.'' \<notin> set c \<Longrightarrow>
     parse_key (a @ CHR ''.'' # b @ CHR ''.'' # c) = Inr (a, b, c)"
  by (simp add: parse_key_def py_split_three)

lemma parse_key_three_more:
  "CHR ''.'' \<notin> set a \<Longrightarrow> CHR ''.'' \<notin> set b \<Longrightarrow> CHR ''.'' \<notin> set c \<Longrightarrow>
     parse_key (a @ CHR ''.'' # b @ CHR ''.'' # c @ CHR ''.'' # rest) = Inr (a, b, c)"
  by (simp add: parse_key_def py_split_three_more)

text \<open>
  Claim C7, as the source has it. A name with fewer than three dot-separated tokens fails
  with the \<open>IndexError\<close> of the missing token. A name with three or more tokens does not
  fail there: the table, component and field are its first three tokens, and a name with
  further tokens resolves exactly as the name made of its first three.
\<close>

theorem resolve_token_count:
  assumes "CHR ''.'' \<notin> set a" and "CHR ''.'' \<notin> set b" and "CHR ''.'' \<notin> set c"
  shows "resolve h n a = Inl IndexError
       \<and> resolve h n (a @ ''.'' @ b) = Inl IndexError
       \<and> parse_key (a @ ''.'' @ b @ ''.'' @ c) = Inr (a, b, c)
       \<and> parse_key (a @ ''.'' @ b @ ''.'' @ c @ ''.'' @ rest) = Inr (a, b, c)
       \<and> resolve h n (a @ ''.'' @ b @ ''.'' @ c @ ''.'' @ rest) =
           resolve h n (a @ ''.'' @ b @ ''.'' @ c)"
proof -
  have "resolve h n a = Inl IndexError"
    using assms by (simp add: resolve_def parse_key_def py_split_one)
  moreover have "resolve h n (a @ ''.'' @ b) = Inl IndexError"
    using assms by (simp add: resolve_def parse_key_def py_split_two)
  moreover have "resolve h n (a @ ''.'' @ b @ ''.'' @ c @ ''.'' @ rest) =
           resolve h n (a @ ''.'' @ b @ ''.'' @ c)"
    using assms by (simp add: resolve_def parse_key_three parse_key_three_more)
  ultimately show ?thesis
    using assms by (simp add: parse_key_three parse_key_three_more)
qed

theorem resolve_token_count_witness:
  "CHR ''.'' \<notin> set ''load'' \<and> CHR ''.'' \<notin> set ''Load1'' \<and> CHR ''.'' \<notin> set ''p_mw''
   \<and> resolve example_heap example_net ''load'' = Inl IndexError
   \<and> resolve example_heap example_net ''load.Load1'' = Inl IndexError
   \<and> parse_key ''load.Load1.p_mw'' = Inr (''load'', ''Load1'', ''p_mw'')
   \<and> parse_key ''load.Load1.p_mw.extra'' = Inr (''load'', ''Load1'', ''p_mw'')
   \<and> resolve example_heap example_net ''load.Load1.p_mw.extra'' =
       resolve example_heap example_net ''load.Load1.p_mw''"
proof -
  have a: "CHR ''.'' \<notin> set ''load''" and b: "CHR ''.'' \<notin> set ''Load1''"
    and c: "CHR ''.'' \<notin> set ''p_mw''"
    by simp_all
  from resolve_token_count [OF a b c, of example_heap example_net "''extra''"] a b c
  show ?thesis
    by simp
qed

text \<open>
  Claim C7 as stated fails: a name of four tokens is not rejected, it resolves to row 2 of
  the table \<open>load\<close>.
\<close>

theorem four_tokens_resolve:
  "length (py_split ''load.Load1.p_mw.extra'' ''.'') = 4
   \<and> resolve example_heap example_net ''load.Load1.p_mw.extra'' =
       Inr (''load'', [VInt 2], ''p_mw'')"
  by code_simp

lemma split_from_no_res:
  "\<not> occurs ''res_'' d \<Longrightarrow> split_from ''res_'' tok d = [tok @ d]"
  by (induction d arbitrary: tok) auto

lemma py_split_res:
  "\<not> occurs ''res_'' d \<Longrightarrow> py_split (''res_'' @ d) ''res_'' = [[], d]"
  by (simp add: py_split_def split_from_no_res)

lemma startswith_res: "startswith (''res_'' @ d) ''res_''"
  by (simp add: startswith_def)

lemma mask_filter:
  "length names = length idx \<Longrightarrow>
     map fst (filter snd (zip idx (map f names))) =
     map fst (filter (\<lambda>(l, n). f n) (zip idx names))"
  by (induction idx names rule: list_induct2') auto

lemma getitem_mask_names:
  assumes "length names = length idx"
  shows "getitem_mask idx (map (\<lambda>n. n = VStr cname) names) =
           Inr (map fst (filter (\<lambda>(l, n). n = VStr cname) (zip idx names)))"
  using assms by (simp add: getitem_mask_def mask_filter)

lemma lookup_ix_res:
  assumes "map_of (tables n) (''res_'' @ d) = Some a" and "a < length h"
    and "map_of (tables n) d = Some b" and "b < length h"
    and "\<not> occurs ''res_'' d"
    and "map_of (columns (h ! b)) ''name'' = Some names"
    and "index (h ! a) = index (h ! b)"
    and "length names = length (index (h ! b))"
  shows "lookup_ix h n (''res_'' @ d) cname =
           Inr (map fst (filter (\<lambda>(l, n). n = VStr cname) (zip (index (h ! b)) names)))"
proof -
  have "py_split (''res_'' @ d) ''res_'' ! 1 = d"
    using py_split_res [OF assms(5)] by simp
  moreover have "getattr_table h n (''res_'' @ d) = Inr a"
    using assms(1,2) by (simp add: getattr_table_def)
  moreover have "getattr_table h n d = Inr b"
    using assms(3,4) by (simp add: getattr_table_def)
  moreover have "getitem_column (h ! b) ''name'' = Inr names"
    using assms(6) by (simp add: getitem_column_def)
  ultimately show ?thesis
    using assms(7,8) startswith_res [of d]
    by (simp only: lookup_ix_def getitem_mask_names if_True sum.case)
qed

text \<open>
  Claim C5. For a result table \<open>res_d\<close> whose index is the index of its definition
  table \<open>d\<close> (as the power flow leaves it), the name \<open>res_d.component.field\<close> resolves to
  the table \<open>res_d\<close> and to the labels of the rows of \<open>d\<close> that carry the component's name;
  with \<open>Load1\<close> at index 2 of \<open>load\<close>, the name \<open>res_load.Load1.p_mw\<close> resolves to row 2 of
  \<open>res_load\<close>. (\<open>d\<close> is the text after the prefix, as no further \<open>res_\<close> occurs in it.)
\<close>

theorem resolve_result_table:
  assumes "map_of (tables n) (''res_'' @ d) = Some a" and "a < length h"
    and "map_of (tables n) d = Some b" and "b < length h"
    and "\<not> occurs ''res_'' d"
    and "map_of (columns (h ! b)) ''name'' = Some names"
    and "index (h ! a) = index (h ! b)"
    and "length names = length (index (h ! b))"
    and "CHR ''.'' \<notin> set d" and "CHR ''.'' \<notin> set cname" and "CHR ''.'' \<notin> set param"
  shows "resolve h n (''res_'' @ d @ ''.'' @ cname @ ''.'' @ param) =
           Inr (''res_'' @ d,
                map fst (filter (\<lambda>(l, n). n = VStr cname) (zip (index (h ! b)) names)),
                param)"
proof -
  have "CHR ''.'' \<notin> set (''res_'' @ d)"
    using assms(9) by simp
  then have "parse_key ((''res_'' @ d) @ CHR ''.'' # cname @ CHR ''.'' # param) =
               Inr (''res_'' @ d, cname, param)"
    using assms(10,11) by (rule parse_key_three)
  then have "parse_key (''res_'' @ d @ ''.'' @ cname @ ''.'' @ param) =
               Inr (''res_'' @ d, cname, param)"
    by simp
  then show ?thesis
    using lookup_ix_res [OF assms(1-8), of cname]
    by (simp only: resolve_def sum.case prod.case)
qed

theorem resolve_result_table_witness:
  "map_of (tables example_net) (''res_'' @ ''load'') = Some 1 \<and> 1 < length example_heap
   \<and> map_of (tables example_net) ''load'' = Some 0 \<and> 0 < length example_heap
   \<and> \<not> occurs ''res_'' ''load''
   \<and> map_of (columns (example_heap ! 0)) ''name'' =
       Some [VStr ''LoadA'', VStr ''LoadB'', VStr ''Load1'']
   \<and> index (example_heap ! 1) = index (example_heap ! 0)
   \<and> length [VStr ''LoadA'', VStr ''LoadB'', VStr ''Load1''] = length (index (example_heap ! 0))
   \<and> CHR ''.'' \<notin> set ''load'' \<and> CHR ''.'' \<notin> set ''Load1'' \<and> CHR ''.'' \<notin> set ''p_mw''
   \<and> resolve example_heap example_net ''res_load.Load1.p_mw'' =
       Inr (''res_load'', [VInt 2], ''p_mw'')"
proof -
  have 1: "map_of (tables example_net) (''res_'' @ ''load'') = Some 1"
    and 2: "1 < length example_heap"
    and 3: "map_of (tables example_net) ''load'' = Some 0"
    and 4: "0 < length example_heap"
    and 5: "\<not> occurs ''res_'' ''load''"
    and 6: "map_of (columns (example_heap ! 0)) ''name'' =
              Some [VStr ''LoadA'', VStr ''LoadB'', VStr ''Load1'']"
    and 7: "index (example_heap ! 1) = index (example_heap ! 0)"
    and 8: "length [VStr ''LoadA'', VStr ''LoadB'', VStr ''Load1''] =
              length (index (example_heap ! 0))"
    and 9: "CHR ''.'' \<notin> set ''load''" "CHR ''.'' \<notin> set ''Load1''" "CHR ''.'' \<notin> set ''p_mw''"
    by (simp_all add: example_net_def example_heap_def example_load_def example_res_load_def)
  have "index (example_heap ! 0) = [VInt 0, VInt 1, VInt 2]"
    by (simp add: example_heap_def example_load_def)
  with resolve_result_table [OF 1 2 3 4 5 6 7 8 9]
  have "resolve example_heap example_net ''res_load.Load1.p_mw'' =
          Inr (''res_load'', [VInt 2], ''p_mw'')"
    by simp
  with 1 2 3 4 5 6 7 8 9 show ?thesis
    by blast
qed

subsection \<open>Writing the inputs\<close>

lemma map_of_set_column:
  "map_of (columns (set_column t name col)) p =
     (if p = name \<and> map_of (columns t) name \<noteq> None then Some col else map_of (columns t) p)"
proof -
  have "map_of (map (\<lambda>(n, c). if n = name then (n, col) else (n, c)) cs) p =
          (if p = name \<and> map_of cs name \<noteq> None then Some col else map_of cs p)" for cs
    by (induction cs) auto
  then show ?thesis
    by (simp add: set_column_def)
qed

lemma index_set_column: "index (set_column t name col) = index t"
  by (simp add: set_column_def)

lemma set_input_resolved:
  assumes "resolve h n key = Inr (cls, ix, param)"
    and "map_of (tables n) cls = Some a" and "a < length h"
    and "map_of (columns (h ! a)) param = Some col"
    and "distinct (index (h ! a))"
  shows "set_input h n key v =
           Inr (h[a := set_column (h ! a) param (setitem_labels (index (h ! a)) ix v col)])"
  using assms by (simp add: set_input_def getattr_table_def getitem_column_def)

text \<open>
  Claim C3, as the source has it. A name into a result table resolves like any other, and
  a write through it is not refused: whenever the name resolves (the table having distinct
  row labels), the write succeeds and stores the value in the field of the resolved rows of
  the result table, leaving its index, its other columns and all other tables as they were.
\<close>

theorem set_input_result_table:
  assumes "resolve h n key = Inr (cls, ix, param)" and "startswith cls ''res_''"
    and "map_of (tables n) cls = Some a" and "a < length h"
    and "map_of (columns (h ! a)) param = Some col"
    and "distinct (index (h ! a))"
  shows "\<exists>h'. set_input h n key v = Inr h'
           \<and> length h' = length h
           \<and> (\<forall>b<length h. b \<noteq> a \<longrightarrow> h' ! b = h ! b)
           \<and> index (h' ! a) = index (h ! a)
           \<and> (\<forall>p. p \<noteq> param \<longrightarrow> map_of (columns (h' ! a)) p = map_of (columns (h ! a)) p)
           \<and> map_of (columns (h' ! a)) param =
               Some (map (\<lambda>(l, x). if l \<in> set ix then v else x) (zip (index (h ! a)) col))"
proof -
  let ?h' = "h[a := set_column (h ! a) param (setitem_labels (index (h ! a)) ix v col)]"
  have "set_input h n key v = Inr ?h'"
    using assms(1,3,4,5,6) by (rule set_input_resolved)
  moreover have "length ?h' = length h"
    by simp
  moreover have "\<forall>b<length h. b \<noteq> a \<longrightarrow> ?h' ! b = h ! b"
    by simp
  moreover have "index (?h' ! a) = index (h ! a)"
    using assms(4) by (simp add: index_set_column)
  moreover have "\<forall>p. p \<noteq> param \<longrightarrow> map_of (columns (?h' ! a)) p = map_of (columns (h ! a)) p"
    using assms(4) by (simp add: map_of_set_column)
  moreover have "map_of (columns (?h' ! a)) param =
               Some (map (\<lambda>(l, x). if l \<in> set ix then v else x) (zip (index (h ! a)) col))"
    using assms(4,5) by (simp add: map_of_set_column setitem_labels_def)
  ultimately show ?thesis
    by blast
qed

theorem set_input_result_table_witness:
  "resolve example_heap example_net ''res_load.Load1.p_mw'' = Inr (''res_load'', [VInt 2], ''p_mw'')
   \<and> startswith ''res_load'' ''res_''
   \<and> map_of (tables example_net) ''res_load'' = Some 1 \<and> 1 < length example_heap
   \<and> map_of (columns (example_heap ! 1)) ''p_mw'' = Some [VReal 1, VReal 2, VReal 3]
   \<and> distinct (index (example_heap ! 1))
   \<and> (\<exists>h'. set_input example_heap example_net ''res_load.Load1.p_mw'' (VReal 7) = Inr h'
          \<and> index (h' ! 1) = [VInt 0, VInt 1, VInt 2]
          \<and> h' ! 0 = example_load
          \<and> map_of (columns (h' ! 1)) ''p_mw'' = Some [VReal 1, VReal 2, VReal 7])"
proof -
  have 1: "resolve example_heap example_net ''res_load.Load1.p_mw'' =
             Inr (''res_load'', [VInt 2], ''p_mw'')"
    by code_simp
  have 2: "startswith ''res_load'' ''res_''"
    by (simp add: startswith_def)
  have 3: "map_of (tables example_net) ''res_load'' = Some 1"
    and 4: "1 < length example_heap"
    and 5: "map_of (columns (example_heap ! 1)) ''p_mw'' = Some [VReal 1, VReal 2, VReal 3]"
    and 6: "distinct (index (example_heap ! 1))"
    by (simp_all add: example_net_def example_heap_def example_res_load_def)
  from set_input_result_table [OF 1 2 3 4 5 6, of "VReal 7"]
  obtain h' where h': "set_input example_heap example_net ''res_load.Load1.p_mw'' (VReal 7) = Inr h'"
      "length h' = length example_heap"
      "\<forall>b<length example_heap. b \<noteq> 1 \<longrightarrow> h' ! b = example_heap ! b"
      "index (h' ! 1) = index (example_heap ! 1)"
      "map_of (columns (h' ! 1)) ''p_mw'' =
         Some (map (\<lambda>(l, x). if l \<in> set [VInt 2] then VReal 7 else x)
                 (zip (index (example_heap ! 1)) [VReal 1, VReal 2, VReal 3]))"
    by blast
  from h'(3) have "h' ! 0 = example_load"
    by (simp add: example_heap_def)
  moreover from h'(4) have "index (h' ! 1) = [VInt 0, VInt 1, VInt 2]"
    by (simp add: example_heap_def example_res_load_def)
  moreover from h'(5) have "map_of (columns (h' ! 1)) ''p_mw'' = Some [VReal 1, VReal 2, VReal 7]"
    by (simp add: example_heap_def example_res_load_def)
  ultimately show ?thesis
    using 1 2 3 4 5 6 h'(1) by blast
qed

text \<open>
  Claim C3 as stated fails: the input \<open>res_load.Load1.p_mw = 7\<close> is written without an
  error, and row 2 of the result table changes from 3 to 7.
\<close>

theorem write_to_result_table_succeeds:
  "get_and_set_fmi_inputs example_heap example_net
     \<lparr>real_inputs = [(''res_load.Load1.p_mw'', 7)], integer_inputs = [],
      boolean_inputs = [], string_inputs = []\<rparr> =
     ([example_load,
       \<lparr>index = [VInt 0, VInt 1, VInt 2], columns = [(''p_mw'', [VReal 1, VReal 2, VReal 7])]\<rparr>],
      None)
   \<and> example_heap ! 1 =
       \<lparr>index = [VInt 0, VInt 1, VInt 2], columns = [(''p_mw'', [VReal 1, VReal 2, VReal 3])]\<rparr>"
  by code_simp

lemma lookup_ix_direct:
  assumes "\<not> startswith cls ''res_''"
    and "map_of (tables n) cls = Some a" and "a < length h"
    and "map_of (columns (h ! a)) ''name'' = Some names"
    and "length names = length (index (h ! a))"
  shows "lookup_ix h n cls cname =
           Inr (map fst (filter (\<lambda>(l, n). n = VStr cname) (zip (index (h ! a)) names)))"
  using assms
  by (simp add: lookup_ix_def getattr_table_def getitem_column_def getitem_mask_names)

lemma label_selected:
  assumes "distinct idx" and "length names = length idx" and "j < length idx"
  shows "idx ! j \<in> set (map fst (filter (\<lambda>(l, n). n = VStr cname) (zip idx names)))
           \<longleftrightarrow> names ! j = VStr cname"
proof
  assume "idx ! j \<in> set (map fst (filter (\<lambda>(l, n). n = VStr cname) (zip idx names)))"
  then obtain nm where "(idx ! j, nm) \<in> set (zip idx names)" and nm: "nm = VStr cname"
    by auto
  then obtain k where k: "k < length idx" "idx ! k = idx ! j" "names ! k = nm"
    using assms(2) by (auto simp: in_set_zip)
  with assms(1,3) have "k = j"
    by (simp add: nth_eq_iff_index_eq)
  with k nm show "names ! j = VStr cname"
    by simp
next
  assume "names ! j = VStr cname"
  moreover have "(idx ! j, names ! j) \<in> set (zip idx names)"
    using assms(2,3) by (auto simp: in_set_zip)
  ultimately show "idx ! j \<in> set (map fst (filter (\<lambda>(l, n). n = VStr cname) (zip idx names)))"
    by force
qed

lemma setitem_labels_by_name:
  assumes "distinct idx" and "length names = length idx" and "length col = length idx"
  shows "setitem_labels idx (map fst (filter (\<lambda>(l, n). n = VStr cname) (zip idx names))) v col =
           map (\<lambda>(nm, x). if nm = VStr cname then v else x) (zip names col)"
proof (rule nth_equalityI)
  show "length (setitem_labels idx
                  (map fst (filter (\<lambda>(l, n). n = VStr cname) (zip idx names))) v col) =
        length (map (\<lambda>(nm, x). if nm = VStr cname then v else x) (zip names col))"
    using assms by (simp add: setitem_labels_def)
next
  fix j
  assume "j < length (setitem_labels idx
                  (map fst (filter (\<lambda>(l, n). n = VStr cname) (zip idx names))) v col)"
  then have j: "j < length idx"
    using assms by (simp add: setitem_labels_def)
  with label_selected [OF assms(1,2) j, of cname] assms
  show "setitem_labels idx
          (map fst (filter (\<lambda>(l, n). n = VStr cname) (zip idx names))) v col ! j =
        map (\<lambda>(nm, x). if nm = VStr cname then v else x) (zip names col) ! j"
    by (simp add: setitem_labels_def)
qed

text \<open>
  Claim C8, as the source has it on the write path. The number of rows that carry the
  component's name is not checked: for a name into a definition table with distinct row
  labels the write succeeds and sets the field in every row of that name, be there none,
  one or several, and changes nothing else.
\<close>

theorem set_input_every_match:
  assumes "\<not> startswith cls ''res_''"
    and "CHR ''.'' \<notin> set cls" and "CHR ''.'' \<notin> set cname" and "CHR ''.'' \<notin> set param"
    and "map_of (tables n) cls = Some a" and "a < length h"
    and "map_of (columns (h ! a)) ''name'' = Some names"
    and "map_of (columns (h ! a)) param = Some col"
    and "length names = length (index (h ! a))"
    and "length col = length (index (h ! a))"
    and "distinct (index (h ! a))"
  shows "\<exists>h'. set_input h n (cls @ ''.'' @ cname @ ''.'' @ param) v = Inr h'
           \<and> length h' = length h
           \<and> (\<forall>b<length h. b \<noteq> a \<longrightarrow> h' ! b = h ! b)
           \<and> index (h' ! a) = index (h ! a)
           \<and> (\<forall>p. p \<noteq> param \<longrightarrow> map_of (columns (h' ! a)) p = map_of (columns (h ! a)) p)
           \<and> map_of (columns (h' ! a)) param =
               Some (map (\<lambda>(nm, x). if nm = VStr cname then v else x) (zip names col))"
proof -
  let ?ix = "map fst (filter (\<lambda>(l, n). n = VStr cname) (zip (index (h ! a)) names))"
  let ?h' = "h[a := set_column (h ! a) param (setitem_labels (index (h ! a)) ?ix v col)]"
  have "parse_key (cls @ CHR ''.'' # cname @ CHR ''.'' # param) = Inr (cls, cname, param)"
    using assms(2,3,4) by (rule parse_key_three)
  then have "resolve h n (cls @ ''.'' @ cname @ ''.'' @ param) = Inr (cls, ?ix, param)"
    using lookup_ix_direct [OF assms(1,5,6,7,9), of cname] by (simp add: resolve_def)
  then have "set_input h n (cls @ ''.'' @ cname @ ''.'' @ param) v = Inr ?h'"
    using assms(5,6,8,11) by (rule set_input_resolved)
  moreover have "length ?h' = length h"
    by simp
  moreover have "\<forall>b<length h. b \<noteq> a \<longrightarrow> ?h' ! b = h ! b"
    by simp
  moreover have "index (?h' ! a) = index (h ! a)"
    using assms(6) by (simp add: index_set_column)
  moreover have "\<forall>p. p \<noteq> param \<longrightarrow> map_of (columns (?h' ! a)) p = map_of (columns (h ! a)) p"
    using assms(6) by (simp add: map_of_set_column)
  moreover have "map_of (columns (?h' ! a)) param =
               Some (map (\<lambda>(nm, x). if nm = VStr cname then v else x) (zip names col))"
    using assms(6,8) setitem_labels_by_name [OF assms(11,9,10), of cname v]
    by (simp add: map_of_set_column)
  ultimately show ?thesis
    by blast
qed

text \<open>
  Claim C8 as stated fails: a write to a component that no row names succeeds and changes
  nothing, and a write to a name carried by two rows succeeds and sets both.
\<close>

theorem no_match_and_two_matches_write:
  "set_input example_heap example_net ''load.Nobody.p_mw'' (VReal 7) = Inr example_heap
   \<and> set_input
       [\<lparr>index = [VInt 0, VInt 1, VInt 2],
         columns = [(''name'', [VStr ''Load1'', VStr ''LoadB'', VStr ''Load1'']),
                    (''p_mw'', [VReal 1, VReal 2, VReal 3])]\<rparr>]
       example_net ''load.Load1.p_mw'' (VReal 7) =
     Inr [\<lparr>index = [VInt 0, VInt 1, VInt 2],
           columns = [(''name'', [VStr ''Load1'', VStr ''LoadB'', VStr ''Load1'']),
                      (''p_mw'', [VReal 7, VReal 2, VReal 7])]\<rparr>]"
  by code_simp

theorem set_input_every_match_witness:
  "\<not> startswith ''load'' ''res_''
   \<and> CHR ''.'' \<notin> set ''load'' \<and> CHR ''.'' \<notin> set ''Nobody'' \<and> CHR ''.'' \<notin> set ''p_mw''
   \<and> map_of (tables example_net) ''load'' = Some 0 \<and> 0 < length example_heap
   \<and> map_of (columns (example_heap ! 0)) ''name'' =
       Some [VStr ''LoadA'', VStr ''LoadB'', VStr ''Load1'']
   \<and> map_of (columns (example_heap ! 0)) ''p_mw'' = Some [VReal 1, VReal 2, VReal 3]
   \<and> length [VStr ''LoadA'', VStr ''LoadB'', VStr ''Load1''] = length (index (example_heap ! 0))
   \<and> length [VReal 1, VReal 2, VReal 3] = length (index (example_heap ! 0))
   \<and> distinct (index (example_heap ! 0))
   \<and> (\<exists>h'. set_input example_heap example_net ''load.Nobody.p_mw'' (VReal 7) = Inr h'
          \<and> map_of (columns (h' ! 0)) ''p_mw'' = Some [VReal 1, VReal 2, VReal 3])
   \<and> (\<exists>h'. set_input example_heap example_net ''load.Load1.p_mw'' (VReal 7) = Inr h'
          \<and> map_of (columns (h' ! 0)) ''p_mw'' = Some [VReal 1, VReal 2, VReal 7])"
proof -
  have 1: "\<not> startswith ''load'' ''res_''"
    by (simp add: startswith_def)
  have 2: "CHR ''.'' \<notin> set ''load''" and 3: "CHR ''.'' \<notin> set ''Nobody''"
    and 12: "CHR ''.'' \<notin> set ''Load1''" and 4: "CHR ''.'' \<notin> set ''p_mw''"
    by simp_all
  have 5: "map_of (tables example_net) ''load'' = Some 0"
    and 6: "0 < length example_heap"
    and 7: "map_of (columns (example_heap ! 0)) ''name'' =
              Some [VStr ''LoadA'', VStr ''LoadB'', VStr ''Load1'']"
    and 8: "map_of (columns (example_heap ! 0)) ''p_mw'' = Some [VReal 1, VReal 2, VReal 3]"
    and 9: "length [VStr ''LoadA'', VStr ''LoadB'', VStr ''Load1''] =
              length (index (example_heap ! 0))"
    and 10: "length [VReal 1, VReal 2, VReal 3] = length (index (example_heap ! 0))"
    and 11: "distinct (index (example_heap ! 0))"
    by (simp_all add: example_net_def example_heap_def example_load_def)
  from set_input_every_match [OF 1 2 3 4 5 6 7 8 9 10 11, of "VReal 7"]
  have none: "\<exists>h'. set_input example_heap example_net ''load.Nobody.p_mw'' (VReal 7) = Inr h'
          \<and> map_of (columns (h' ! 0)) ''p_mw'' = Some [VReal 1, VReal 2, VReal 3]"
    by auto
  from set_input_every_match [OF 1 2 12 4 5 6 7 8 9 10 11, of "VReal 7"]
  have one: "\<exists>h'. set_input example_heap example_net ''load.Load1.p_mw'' (VReal 7) = Inr h'
          \<and> map_of (columns (h' ! 0)) ''p_mw'' = Some [VReal 1, VReal 2, VReal 7]"
    by auto
  from 1 2 3 4 5 6 7 8 9 10 11 none one show ?thesis
    by blast
qed

subsection \<open>Loading the profiles\<close>

lemma load_rows_readable:
  assumes "\<forall>r \<in> set rows. p_profile r = None \<longrightarrow>
             (\<exists>s. read_csv_column fs (p_file r) (p_column r) = Inr s)"
  shows "load_rows True fs rows =
           (map (\<lambda>r. case p_profile r of
                        Some s \<Rightarrow> r
                      | None \<Rightarrow> r\<lparr>p_profile :=
                                    Some (projr (read_csv_column fs (p_file r) (p_column r)))\<rparr>)
              rows, None)"
  using assms
proof (induction rows)
  case Nil
  then show ?case by simp
next
  case (Cons r rows)
  then have rest: "load_rows True fs rows =
           (map (\<lambda>r. case p_profile r of
                        Some s \<Rightarrow> r
                      | None \<Rightarrow> r\<lparr>p_profile :=
                                    Some (projr (read_csv_column fs (p_file r) (p_column r)))\<rparr>)
              rows, None)"
    by simp
  show ?case
  proof (cases "p_profile r")
    case None
    with Cons.prems obtain s where "read_csv_column fs (p_file r) (p_column r) = Inr s"
      by auto
    with None rest show ?thesis by simp
  next
    case (Some s)
    with rest show ?thesis by simp
  qed
qed

text \<open>
  On a profiles table whose rows are views, \<open>_load_profiles\<close> does what it is written for:
  when every file it needs can be read it raises nothing, a profile that was given a series
  keeps its row, and a profile without one holds the series read from its file and column.
\<close>

lemma load_profiles_views:
  assumes "profiles n = Some t" and "iterrows_views t"
    and "\<forall>r \<in> set (pt_rows t). p_profile r = None \<longrightarrow>
           (\<exists>s. read_csv_column fs (p_file r) (p_column r) = Inr s)"
  shows "\<exists>rows'. load_profiles fs n = (n\<lparr>profiles := Some (t\<lparr>pt_rows := rows'\<rparr>)\<rparr>, None)
           \<and> length rows' = length (pt_rows t)
           \<and> (\<forall>i<length (pt_rows t).
                 p_profile (rows' ! i) \<noteq> None
                 \<and> (p_profile (pt_rows t ! i) \<noteq> None \<longrightarrow> rows' ! i = pt_rows t ! i)
                 \<and> (p_profile (pt_rows t ! i) = None \<longrightarrow>
                      (\<exists>s. read_csv_column fs (p_file (pt_rows t ! i))
                                (p_column (pt_rows t ! i)) = Inr s
                         \<and> rows' ! i = (pt_rows t ! i)\<lparr>p_profile := Some s\<rparr>)))"
proof -
  let ?rows = "pt_rows t"
  let ?load = "\<lambda>r. case p_profile r of
                        Some s \<Rightarrow> r
                      | None \<Rightarrow> r\<lparr>p_profile :=
                                    Some (projr (read_csv_column fs (p_file r) (p_column r)))\<rparr>"
  have run: "load_profiles fs n = (n\<lparr>profiles := Some (t\<lparr>pt_rows := map ?load ?rows\<rparr>)\<rparr>, None)"
    using assms(1,2) load_rows_readable [OF assms(3)] by (simp add: load_profiles_def)
  have row: "p_profile (map ?load ?rows ! i) \<noteq> None
                 \<and> (p_profile (?rows ! i) \<noteq> None \<longrightarrow> map ?load ?rows ! i = ?rows ! i)
                 \<and> (p_profile (?rows ! i) = None \<longrightarrow>
                      (\<exists>s. read_csv_column fs (p_file (?rows ! i)) (p_column (?rows ! i)) = Inr s
                         \<and> map ?load ?rows ! i = (?rows ! i)\<lparr>p_profile := Some s\<rparr>))"
    if i: "i < length ?rows" for i
  proof (cases "p_profile (?rows ! i)")
    case None
    from i have "?rows ! i \<in> set ?rows" by simp
    with assms(3) None obtain s
      where s: "read_csv_column fs (p_file (?rows ! i)) (p_column (?rows ! i)) = Inr s"
      by blast
    with None i show ?thesis by simp
  next
    case (Some s)
    with i show ?thesis by simp
  qed
  from run row show ?thesis
    by (intro exI [of _ "map ?load ?rows"]) simp
qed

lemma load_rows_copies:
  "load_rows False fs rows = (rows', None) \<Longrightarrow> rows' = rows"
proof (induction rows arbitrary: rows')
  case Nil
  then show ?case by simp
next
  case (Cons r rows)
  obtain rest e where rest: "load_rows False fs rows = (rest, e)"
    by (cases "load_rows False fs rows")
  with Cons.prems have "e = None" and "rows' = r # rest"
    by (auto split: option.splits sum.splits)
  with rest Cons.IH show ?case by simp
qed

lemma load_profiles_copies:
  assumes "profiles n = Some t" and "\<not> iterrows_views t"
    and "load_profiles fs n = (n', None)"
  shows "n' = n"
proof -
  obtain rows' e where run: "load_rows False fs (pt_rows t) = (rows', e)"
    by (cases "load_rows False fs (pt_rows t)")
  with assms have "e = None" and n': "n' = n\<lparr>profiles := Some (t\<lparr>pt_rows := rows'\<rparr>)\<rparr>"
    by (simp_all add: load_profiles_def)
  with run have "rows' = pt_rows t"
    by (simp add: load_rows_copies)
  with n' assms(1) show ?thesis
    by simp
qed

text \<open>
  Claim C6. Every profile is to hold a series after \<open>_load_profiles\<close>. The source assigns the
  series it has read to the row handed out by \<open>iterrows()\<close>, and on a profiles table that
  stores the column numbers as integers that row is a copy: the file is read, nothing is
  raised, and the table is as before, the first profile still without a series.
\<close>

theorem load_profiles_integer_column:
  "load_profiles example_csv_files
     (example_net\<lparr>profiles := Some \<lparr>pt_rows = example_profiles, pt_column_dtype = Int64\<rparr>\<rparr>) =
     (example_net\<lparr>profiles := Some \<lparr>pt_rows = example_profiles, pt_column_dtype = Int64\<rparr>\<rparr>,
      None)
   \<and> read_csv_column example_csv_files ''load1.csv'' 2 =
       Inr (FloatSeries [(0, 11 / 2), (10, 13 / 2)])
   \<and> p_file (example_profiles ! 0) = ''load1.csv'' \<and> p_column (example_profiles ! 0) = 2
   \<and> p_profile (example_profiles ! 0) = None"
proof -
  have csv: "read_csv_column example_csv_files ''load1.csv'' 2 =
               Inr (FloatSeries [(0, 11 / 2), (10, 13 / 2)])"
    by code_simp
  then have "load_rows False example_csv_files example_profiles = (example_profiles, None)"
    by (simp add: example_profiles_def)
  then have "load_profiles example_csv_files
     (example_net\<lparr>profiles := Some \<lparr>pt_rows = example_profiles, pt_column_dtype = Int64\<rparr>\<rparr>) =
     (example_net\<lparr>profiles := Some \<lparr>pt_rows = example_profiles, pt_column_dtype = Int64\<rparr>\<rparr>,
      None)"
    by (simp add: load_profiles_def iterrows_views_def)
  with csv show ?thesis
    by (simp add: example_profiles_def)
qed

subsection \<open>Flattening the results\<close>

lemma copy_results_frame:
  assumes "copy_results h n kas = (h', r)"
  shows "take (length h) h' = h
       \<and> (\<forall>df_dict. r = Inr df_dict \<longrightarrow> (\<forall>(k, a) \<in> set df_dict. length h \<le> a \<and> a < length h'))"
  using assms
proof (induction kas arbitrary: h h' r)
  case Nil
  then show ?case by auto
next
  case (Cons ka kas)
  obtain key a where ka: "ka = (key, a)" by (cases ka)
  show ?case
  proof (cases "startswith key ''res_''")
    case False
    with Cons.prems ka have "copy_results h n kas = (h', r)" by simp
    then show ?thesis by (rule Cons.IH)
  next
    case res: True
    show ?thesis
    proof (cases "getattr_table h n key")
      case (Inl e)
      with Cons.prems ka res show ?thesis by auto
    next
      case (Inr a')
      show ?thesis
      proof (cases "empty_table (h ! a')")
        case True
        with Cons.prems ka res Inr have "copy_results h n kas = (h', r)" by simp
        then show ?thesis by (rule Cons.IH)
      next
        case False
        obtain h1 r1 where rec: "copy_results (h @ [h ! a']) n kas = (h1, r1)"
          by (cases "copy_results (h @ [h ! a']) n kas")
        from Cons.IH [OF rec]
        have pre: "take (Suc (length h)) h1 = h @ [h ! a']"
          and later: "\<forall>df_dict. r1 = Inr df_dict \<longrightarrow>
                        (\<forall>(k, a) \<in> set df_dict. Suc (length h) \<le> a \<and> a < length h1)"
          by simp_all
        from pre have "take (length h) (take (Suc (length h)) h1) = h"
          by simp
        then have keep: "take (length h) h1 = h"
          by (simp add: min_def)
        from pre have "length (take (Suc (length h)) h1) = Suc (length h)"
          by simp
        then have longer: "length h < length h1"
          by simp
        show ?thesis
        proof (cases r1)
          case (Inl e)
          with Cons.prems ka res Inr False rec have "h' = h1" by simp
          with keep Inl Cons.prems ka res Inr False rec show ?thesis by auto
        next
          case r1: (Inr df_dict)
          with Cons.prems ka res Inr False rec
          have "h' = h1" and "r = Inr ((key, length h) # df_dict)" by simp_all
          with keep longer later r1 show ?thesis by auto
        qed
      qed
    qed
  qed
qed

lemma flatten_tables_frame:
  assumes "flatten_tables str n df_dict h keys dfs = (h', r)"
    and "\<forall>(k, a) \<in> set df_dict. m \<le> a"
  shows "take m h' = take m h"
  using assms
proof (induction df_dict arbitrary: h keys dfs)
  case Nil
  then show ?case by simp
next
  case (Cons ka rest)
  obtain df_name df where ka: "ka = (df_name, df)" by (cases ka)
  with Cons.prems(2) have fresh: "m \<le> df" and rest: "\<forall>(k, a) \<in> set rest. m \<le> a"
    by simp_all
  show ?case
  proof (cases "getattr_table h n (drop 4 df_name)")
    case (Inl e)
    with Cons.prems(1) ka show ?thesis by simp
  next
    case (Inr d)
    show ?thesis
    proof (cases "getitem_column (h ! d) ''name''")
      case (Inl e)
      with Cons.prems(1) ka Inr show ?thesis by simp
    next
      case names: (Inr names)
      define h1 where "h1 = h[df := (h ! df)\<lparr>index :=
               map (\<lambda>l. case map_of (rev (zip (index (h ! d)) (map str names))) l of
                          None \<Rightarrow> VNaN | Some s \<Rightarrow> VStr s)
                 (index (h ! df))\<rparr>]"
      from Cons.prems(1) ka Inr names
      have "flatten_tables str n rest h1 (keys @ [drop 4 df_name]) (dfs @ [stack (h1 ! df)]) =
              (h', r)"
        by (simp add: h1_def Let_def)
      from Cons.IH [OF this rest] have "take m h' = take m h1" .
      also have "\<dots> = take m h"
        using fresh by (simp add: h1_def)
      finally show ?thesis .
    qed
  qed
qed

lemma get_pp_results_prefix:
  "take (length h) (fst (get_pp_results str h n time)) = h"
proof -
  obtain h1 r1 where copies: "copy_results h n (tables n) = (h1, r1)"
    by (cases "copy_results h n (tables n)")
  from copy_results_frame [OF copies]
  have keep: "take (length h) h1 = h"
    and fresh: "\<forall>df_dict. r1 = Inr df_dict \<longrightarrow> (\<forall>(k, a) \<in> set df_dict. length h \<le> a \<and> a < length h1)"
    by simp_all
  show ?thesis
  proof (cases r1)
    case (Inl e)
    with copies keep show ?thesis by (simp add: get_pp_results_def)
  next
    case (Inr df_dict)
    show ?thesis
    proof (cases "df_dict = []")
      case True
      with copies keep Inr show ?thesis by (simp add: get_pp_results_def)
    next
      case False
      obtain h2 r2 where flat: "flatten_tables str n df_dict h1 [] [] = (h2, r2)"
        by (cases "flatten_tables str n df_dict h1 [] []")
      from fresh Inr have "\<forall>(k, a) \<in> set df_dict. length h \<le> a"
        by auto
      from flatten_tables_frame [OF flat this] keep have "take (length h) h2 = h"
        by simp
      moreover from copies Inr False flat have "fst (get_pp_results str h n time) = h2"
        by (cases r2) (auto simp: get_pp_results_def)
      ultimately show ?thesis by simp
    qed
  qed
qed

text \<open>
  Claim C9. \<open>get_pp_results\<close> changes no table that existed before the call: the heap
  after the call begins with the heap before it, so every table of the network, result
  table or definition table, is found at its address with the contents and index it had.
  This holds whatever the network holds and whether or not the call raises. The index
  assignment of line 308 goes to the copies, which are new objects behind the old ones.
\<close>

theorem get_pp_results_frame:
  "take (length h) (fst (get_pp_results str h n time)) = h
   \<and> (\<forall>name a. getattr_table h n name = Inr a \<longrightarrow>
          getattr_table (fst (get_pp_results str h n time)) n name = Inr a
          \<and> fst (get_pp_results str h n time) ! a = h ! a)"
proof (intro conjI allI impI)
  show keep: "take (length h) (fst (get_pp_results str h n time)) = h"
    by (rule get_pp_results_prefix)
  then have "length (take (length h) (fst (get_pp_results str h n time))) = length h"
    by simp
  then have longer: "length h \<le> length (fst (get_pp_results str h n time))"
    by simp
  fix name a
  assume "getattr_table h n name = Inr a"
  then have a: "map_of (tables n) name = Some a" "a < length h"
    by (auto simp: getattr_table_def split: option.splits if_splits)
  with longer show "getattr_table (fst (get_pp_results str h n time)) n name = Inr a"
    by (simp add: getattr_table_def)
  from a(2) have "take (length h) (fst (get_pp_results str h n time)) ! a =
                    fst (get_pp_results str h n time) ! a"
    by simp
  with keep show "fst (get_pp_results str h n time) ! a = h ! a"
    by simp
qed

theorem get_pp_results_frame_witness:
  "take (length example_heap)
     (fst (get_pp_results (\<lambda>v. case v of VStr s \<Rightarrow> s | _ \<Rightarrow> []) example_heap example_net 0)) =
     example_heap
   \<and> get_pp_results (\<lambda>v. case v of VStr s \<Rightarrow> s | _ \<Rightarrow> []) example_heap example_net 0 =
       (example_heap @
          [\<lparr>index = [VStr ''LoadA'', VStr ''LoadB'', VStr ''Load1''],
            columns = [(''p_mw'', [VReal 1, VReal 2, VReal 3])]\<rparr>],
        Inr (0, [((''load'', VStr ''LoadA'', ''p_mw''), VReal 1),
                 ((''load'', VStr ''LoadB'', ''p_mw''), VReal 2),
                 ((''load'', VStr ''Load1'', ''p_mw''), VReal 3)]))"
proof -
  have "get_pp_results (\<lambda>v. case v of VStr s \<Rightarrow> s | _ \<Rightarrow> []) example_heap example_net 0 =
       (example_heap @
          [\<lparr>index = [VStr ''LoadA'', VStr ''LoadB'', VStr ''Load1''],
            columns = [(''p_mw'', [VReal 1, VReal 2, VReal 3])]\<rparr>],
        Inr (0, [((''load'', VStr ''LoadA'', ''p_mw''), VReal 1),
                 ((''load'', VStr ''LoadB'', ''p_mw''), VReal 2),
                 ((''load'', VStr ''Load1'', ''p_mw''), VReal 3)]))"
    by code_simp
  with get_pp_results_frame [of example_heap "\<lambda>v. case v of VStr s \<Rightarrow> s | _ \<Rightarrow> []" example_net 0]
  show ?thesis
    by simp
qed

subsection \<open>Loading the network\<close>

lemma load_pickles_no_file:
  "filter (\<lambda>f. endswith f ''.p'') files = [] \<Longrightarrow> load_pickles unpickle files st = (st, None)"
  by (induction files arbitrary: st) (auto split: if_split_asm)

lemma load_pickles_last:
  assumes "filter (\<lambda>f. endswith f ''.p'') files \<noteq> []"
    and "\<forall>f \<in> set (filter (\<lambda>f. endswith f ''.p'') files). \<exists>n h. unpickle f = Inr (n, h)"
    and "unpickle (last (filter (\<lambda>f. endswith f ''.p'') files)) = Inr (n, h)"
  shows "load_pickles unpickle files st = (st\<lparr>net := Some n, store := h\<rparr>, None)"
  using assms
proof (induction files arbitrary: st)
  case Nil
  then show ?case by simp
next
  case (Cons f files)
  show ?case
  proof (cases "endswith f ''.p''")
    case False
    with Cons.prems have "load_pickles unpickle files st = (st\<lparr>net := Some n, store := h\<rparr>, None)"
      by (intro Cons.IH) simp_all
    with False show ?thesis by simp
  next
    case True
    with Cons.prems(2) obtain n1 h1 where f: "unpickle f = Inr (n1, h1)"
      by auto
    show ?thesis
    proof (cases "filter (\<lambda>f. endswith f ''.p'') files = []")
      case none: True
      with True Cons.prems(3) f have "n1 = n" and "h1 = h"
        by simp_all
      with True f none show ?thesis
        by (simp add: load_pickles_no_file)
    next
      case more: False
      with True Cons.prems
      have "load_pickles unpickle files (st\<lparr>net := Some n1, store := h1\<rparr>) =
              (st\<lparr>net := Some n1, store := h1\<rparr>\<lparr>net := Some n, store := h\<rparr>, None)"
        by (intro Cons.IH) simp_all
      with True f show ?thesis by simp
    qed
  qed
qed

text \<open>
  Claim C10. On an adapter without a network, \<open>init\<close> raises \<open>RuntimeError\<close> when no file of
  the working directory ends in \<open>.p\<close>, and nothing but the start time is stored. When
  there are such files and each can be loaded, loading raises nothing however many they
  are, and the network kept, whose variables are declared, is that of the last of them in
  listing order.
\<close>

theorem init_model_files:
  assumes "net st = None"
  shows "(filter (\<lambda>f. endswith f ''.p'') (listdir env) = [] \<longrightarrow>
            init env st t = (st\<lparr>t_start := Some t\<rparr>, Some RuntimeError))
       \<and> (filter (\<lambda>f. endswith f ''.p'') (listdir env) \<noteq> [] \<and>
          (\<forall>f \<in> set (filter (\<lambda>f. endswith f ''.p'') (listdir env)).
             \<exists>n h. from_pickle env f = Inr (n, h)) \<longrightarrow>
          (\<forall>n h. from_pickle env (last (filter (\<lambda>f. endswith f ''.p'') (listdir env))) = Inr (n, h) \<longrightarrow>
             load_pickles (from_pickle env) (listdir env) (st\<lparr>t_start := Some t\<rparr>) =
               (st\<lparr>t_start := Some t, net := Some n, store := h\<rparr>, None)
             \<and> net (fst (init env st t)) = Some (fst (load_profiles (csv_files env) n))
             \<and> declared (fst (init env st t)) = declared st @ initialize_fmi_inputs n))"
proof (intro conjI impI allI)
  assume "filter (\<lambda>f. endswith f ''.p'') (listdir env) = []"
  then have "load_pickles (from_pickle env) (listdir env) (st\<lparr>t_start := Some t\<rparr>) =
               (st\<lparr>t_start := Some t\<rparr>, None)"
    by (rule load_pickles_no_file)
  with assms show "init env st t = (st\<lparr>t_start := Some t\<rparr>, Some RuntimeError)"
    by (simp add: init_def)
next
  fix n h
  assume files: "filter (\<lambda>f. endswith f ''.p'') (listdir env) \<noteq> [] \<and>
          (\<forall>f \<in> set (filter (\<lambda>f. endswith f ''.p'') (listdir env)).
             \<exists>n h. from_pickle env f = Inr (n, h))"
    and final: "from_pickle env (last (filter (\<lambda>f. endswith f ''.p'') (listdir env))) = Inr (n, h)"
  from files final
  have loaded: "load_pickles (from_pickle env) (listdir env) (st\<lparr>t_start := Some t\<rparr>) =
               (st\<lparr>t_start := Some t, net := Some n, store := h\<rparr>, None)"
    using load_pickles_last [of "listdir env" "from_pickle env" n h "st\<lparr>t_start := Some t\<rparr>"]
    by simp
  then show "load_pickles (from_pickle env) (listdir env) (st\<lparr>t_start := Some t\<rparr>) =
               (st\<lparr>t_start := Some t, net := Some n, store := h\<rparr>, None)" .
  obtain n' e where prof: "load_profiles (csv_files env) n = (n', e)"
    by (cases "load_profiles (csv_files env) n")
  from loaded prof
  show "net (fst (init env st t)) = Some (fst (load_profiles (csv_files env) n))"
    by (auto simp: init_def Let_def split: option.splits sum.splits prod.splits)
  from loaded prof
  show "declared (fst (init env st t)) = declared st @ initialize_fmi_inputs n"
    by (auto simp: init_def Let_def split: option.splits sum.splits prod.splits)
qed

theorem init_model_files_witness:
  "net new_fmu = None
   \<and> init (example_env\<lparr>listdir := [''notes.txt'']\<rparr>) new_fmu 0 =
       (new_fmu\<lparr>t_start := Some 0\<rparr>, Some RuntimeError)
   \<and> load_pickles (from_pickle example_env) (listdir example_env) (new_fmu\<lparr>t_start := Some 0\<rparr>) =
       (new_fmu\<lparr>t_start := Some 0, net := Some example_net, store := example_heap\<rparr>, None)
   \<and> net (fst (init example_env new_fmu 0)) = Some example_net
   \<and> declared (fst (init example_env new_fmu 0)) =
       [Define Input KReal [''res_load.Load1.p_mw''], Define Output KReal [''load.Load1.bus'']]"
proof -
  have fresh: "net new_fmu = None"
    by (simp add: new_fmu_def)
  have none: "filter (\<lambda>f. endswith f ''.p'') (listdir (example_env\<lparr>listdir := [''notes.txt'']\<rparr>)) = []"
    by (simp add: endswith_def)
  have some: "filter (\<lambda>f. endswith f ''.p'') (listdir example_env) = [''old.p'', ''grid.p'']"
    by (simp add: example_env_def endswith_def)
  have all: "\<forall>f \<in> set (filter (\<lambda>f. endswith f ''.p'') (listdir example_env)).
               \<exists>n h. from_pickle example_env f = Inr (n, h)"
    unfolding some by (simp add: example_env_def)
  have final: "from_pickle example_env (last (filter (\<lambda>f. endswith f ''.p'') (listdir example_env))) =
                 Inr (example_net, example_heap)"
    unfolding some by (simp add: example_env_def)
  have profs: "fst (load_profiles (csv_files example_env) example_net) = example_net"
    by (simp add: load_profiles_def example_net_def)
  have decl: "initialize_fmi_inputs example_net =
       [Define Input KReal [''res_load.Load1.p_mw''], Define Output KReal [''load.Load1.bus'']]"
    by (simp add: initialize_fmi_inputs_def if_declared_def example_net_def)
  from init_model_files [OF fresh, of "example_env\<lparr>listdir := [''notes.txt'']\<rparr>" 0] none
  have a: "init (example_env\<lparr>listdir := [''notes.txt'']\<rparr>) new_fmu 0 =
       (new_fmu\<lparr>t_start := Some 0\<rparr>, Some RuntimeError)"
    by blast
  from init_model_files [OF fresh, of example_env 0] some all final
  have b: "load_pickles (from_pickle example_env) (listdir example_env) (new_fmu\<lparr>t_start := Some 0\<rparr>) =
       (new_fmu\<lparr>t_start := Some 0, net := Some example_net, store := example_heap\<rparr>, None)
     \<and> net (fst (init example_env new_fmu 0)) =
         Some (fst (load_profiles (csv_files example_env) example_net))
     \<and> declared (fst (init example_env new_fmu 0)) =
         declared new_fmu @ initialize_fmi_inputs example_net"
    by (metis list.distinct(1))
  from a b fresh show ?thesis
    by (simp add: profs decl new_fmu_def)
qed

end
